theory Spec2Isabelle
  imports Main "HOL-Library.Word"
begin

unbundle bit_operations_syntax

section \<open>Machine data\<close>

text \<open>
  The embedding follows \<^verbatim>\<open>src/misc/mpisupport.c\<close>. A C \<^verbatim>\<open>int\<close> is a 32-bit word, a
  \<^verbatim>\<open>long\<close>, \<^verbatim>\<open>int64_t\<close> or \<^verbatim>\<open>uint64_t\<close> a 64-bit word. A \<^verbatim>\<open>float\<close> and a \<^verbatim>\<open>double\<close> are
  carried as their 32-bit and 64-bit patterns: the functions of this file only copy
  them, they never compute with them. Buffer positions and capacities are natural
  numbers: a size beyond the range of the C \<^verbatim>\<open>int\<close> that holds it, which needs a pool of
  nearly 2 GiB, is not modelled.
\<close>

type_synonym byte = "8 word"
type_synonym c_int = "32 word"
type_synonym c_float = "32 word"
type_synonym c_double = "64 word"
type_synonym c_long = "64 word"

text \<open>The bytes of an object in memory, least significant byte first, and back.\<close>

fun word_bytes :: "nat \<Rightarrow> 'a::len word \<Rightarrow> byte list" where
  "word_bytes 0 w = []"
| "word_bytes (Suc k) w = ucast w # word_bytes k (drop_bit 8 w)"

fun bytes_word :: "byte list \<Rightarrow> 'a::len word" where
  "bytes_word [] = 0"
| "bytes_word (b # bs) = ucast b OR push_bit 8 (bytes_word bs)"

text \<open>The Easel status codes that the file returns.\<close>

datatype status = eslOK | eslFAIL | eslEMEM | eslESYS

section \<open>The MPI pack library\<close>

text \<open>
  MPI is a library outside the repository. The model keeps what the MPI standard says of
  the calls used, for basic datatypes on one architecture: a packed value is the
  object's bytes, \<^verbatim>\<open>MPI_Pack_size\<close> is the number of bytes that \<^verbatim>\<open>MPI_Pack\<close> adds for the
  same count and datatype (what MPICH and Open MPI return), and a call returns an error
  code, here \<open>None\<close>, for a negative count and when the packed bytes would pass the
  end <outsize> (<insize>) of the buffer. The sizes are those of an LP64 system.
\<close>

datatype MPI_Datatype =
  MPI_CHAR | MPI_INT | MPI_FLOAT | MPI_DOUBLE | MPI_LONG | MPI_LONG_LONG_INT

fun type_size :: "MPI_Datatype \<Rightarrow> nat" where
  "type_size MPI_CHAR = 1"
| "type_size MPI_INT = 4"
| "type_size MPI_FLOAT = 4"
| "type_size MPI_DOUBLE = 8"
| "type_size MPI_LONG = 8"
| "type_size MPI_LONG_LONG_INT = 8"

definition MPI_Pack_size :: "int \<Rightarrow> MPI_Datatype \<Rightarrow> nat option" where
  "MPI_Pack_size incount ty =
     (if incount < 0 then None else Some (nat incount * type_size ty))"

text \<open>
  \<open>MPI_Pack inbuf incount ty outbuf outsize position\<close>: <inbuf> is the memory at the
  address passed. The result is the buffer and the new <*position>. Reading more than
  the object holds is an error of the model.
\<close>

definition MPI_Pack ::
  "byte list \<Rightarrow> int \<Rightarrow> MPI_Datatype \<Rightarrow> byte list \<Rightarrow> nat \<Rightarrow> nat \<Rightarrow> (byte list \<times> nat) option" where
  "MPI_Pack inbuf incount ty outbuf outsize position =
     (if incount < 0 \<or> length inbuf < nat incount * type_size ty
         \<or> outsize < position + nat incount * type_size ty
      then None
      else Some (take position outbuf @ take (nat incount * type_size ty) inbuf
                   @ drop (position + nat incount * type_size ty) outbuf,
                 position + nat incount * type_size ty))"

text \<open>
  \<open>MPI_Unpack inbuf insize position outcount ty\<close>: the result is the bytes stored at the
  output address and the new <*position>.
\<close>

definition MPI_Unpack ::
  "byte list \<Rightarrow> nat \<Rightarrow> nat \<Rightarrow> int \<Rightarrow> MPI_Datatype \<Rightarrow> (byte list \<times> nat) option" where
  "MPI_Unpack inbuf insize position outcount ty =
     (if outcount < 0 \<or> insize < position + nat outcount * type_size ty then None
      else Some (take (nat outcount * type_size ty) (drop position inbuf),
                 position + nat outcount * type_size ty))"

text \<open>
  The idiom \<^verbatim>\<open>if (MPI_X(...) != 0) ESL_XEXCEPTION(eslESYS, ...)\<close>: a failed MPI call ends
  the function with <eslESYS>. \<open>esl_try\<close> is the idiom
  \<^verbatim>\<open>if ((status = f(...)) != eslOK) goto ERROR\<close>.
\<close>

definition mpi_try :: "'a option \<Rightarrow> ('a \<Rightarrow> status + 'b) \<Rightarrow> status + 'b" where
  "mpi_try m f = (case m of None \<Rightarrow> Inl eslESYS | Some x \<Rightarrow> f x)"

definition esl_try :: "'e + 'a \<Rightarrow> ('a \<Rightarrow> 'e + 'b) \<Rightarrow> 'e + 'b" where
  "esl_try m f = (case m of Inl e \<Rightarrow> Inl e | Inr x \<Rightarrow> f x)"

text \<open>
  \<^verbatim>\<open>MPI_Pack\<close> writes into the buffer of the caller. When a call of it fails, a packing
  function returns with the buffer as the calls before have left it: the error of a
  packing function carries that buffer besides the status. \<open>pack_try\<close> is the idiom
  \<^verbatim>\<open>if (MPI_Pack(...) != 0) ESL_EXCEPTION(eslESYS, ...)\<close> with <buf> the buffer at the call.
\<close>

type_synonym packed = "(status \<times> byte list) + (byte list \<times> nat)"

definition pack_try ::
  "byte list \<Rightarrow> (byte list \<times> nat) option \<Rightarrow> (byte list \<times> nat \<Rightarrow> packed) \<Rightarrow> packed" where
  "pack_try buf m f = (case m of None \<Rightarrow> Inl (eslESYS, buf) | Some x \<Rightarrow> f x)"

section \<open>Optional strings (Easel)\<close>

text \<open>
  A \<^verbatim>\<open>char *\<close> that may be NULL is a \<open>byte list option\<close>: the characters of the string.

  Modelled from the spec: \<^verbatim>\<open>esl_mpi_PackOptSize\<close>, \<^verbatim>\<open>esl_mpi_PackOpt\<close> and
  \<^verbatim>\<open>esl_mpi_UnpackOpt\<close> are Easel functions (\<^verbatim>\<open>esl_mpi.c\<close>), not under src/. The spec gives an
  optional string as \<^verbatim>\<open>(presence:int32, [length:int32, bytes:char[length]])\<close>: a presence
  indicator first, then the length and the bytes only if present; its size is the
  presence flag, the length prefix and the character bytes when present, the presence
  flag only when absent. The length is a C \<^verbatim>\<open>int\<close>.
\<close>

definition esl_mpi_PackOptSize :: "byte list option \<Rightarrow> status + nat" where
  "esl_mpi_PackOptSize inbuf =
     (case inbuf of
        None \<Rightarrow> mpi_try (MPI_Pack_size 1 MPI_INT) (\<lambda>sz. Inr sz)
      | Some s \<Rightarrow>
          mpi_try (MPI_Pack_size 1 MPI_INT) (\<lambda>sz1.
          mpi_try (MPI_Pack_size 1 MPI_INT) (\<lambda>sz2.
          mpi_try (MPI_Pack_size (sint (word_of_nat (length s) :: c_int)) MPI_CHAR) (\<lambda>sz3.
          Inr (sz1 + sz2 + sz3)))))"

definition esl_mpi_PackOpt :: "byte list option \<Rightarrow> byte list \<Rightarrow> nat \<Rightarrow> nat \<Rightarrow> packed" where
  "esl_mpi_PackOpt inbuf buf n pos =
     (case inbuf of
        None \<Rightarrow> pack_try buf (MPI_Pack (word_bytes 4 (0 :: c_int)) 1 MPI_INT buf n pos) Inr
      | Some s \<Rightarrow>
          pack_try buf (MPI_Pack (word_bytes 4 (1 :: c_int)) 1 MPI_INT buf n pos) (\<lambda>(buf, pos).
          pack_try buf
            (MPI_Pack (word_bytes 4 (word_of_nat (length s) :: c_int)) 1 MPI_INT buf n pos)
            (\<lambda>(buf, pos).
          pack_try buf
            (MPI_Pack s (sint (word_of_nat (length s) :: c_int)) MPI_CHAR buf n pos) Inr)))"

definition esl_mpi_UnpackOpt ::
  "byte list \<Rightarrow> nat \<Rightarrow> nat \<Rightarrow> status + (byte list option \<times> nat)" where
  "esl_mpi_UnpackOpt buf n pos =
     mpi_try (MPI_Unpack buf n pos 1 MPI_INT) (\<lambda>(present, pos).
     if (bytes_word present :: c_int) = 0 then Inr (None, pos)
     else
       mpi_try (MPI_Unpack buf n pos 1 MPI_INT) (\<lambda>(len, pos).
       mpi_try (MPI_Unpack buf n pos (sint (bytes_word len :: c_int)) MPI_CHAR) (\<lambda>(s, pos).
       Inr (Some s, pos))))"

section \<open>The records\<close>

text \<open>
  The structure declarations (\<^verbatim>\<open>base/p7_tophits.h\<close>, \<^verbatim>\<open>base/p7_domain.h\<close>,
  \<^verbatim>\<open>base/p7_alidisplay.h\<close>) are not under src/: the records hold the fields that
  \<^verbatim>\<open>mpisupport.c\<close> reads and writes, with the types it packs them as. A line of an
  alignment display is a pointer into the pool <mem> or NULL: \<open>Some k\<close> is the
  address <mem + k>.
\<close>

record P7_ALIDISPLAY =
  rfline :: "int option"
  mmline :: "int option"
  csline :: "int option"
  model :: "int option"
  mline :: "int option"
  aseq :: "int option"
  ppline :: "int option"
  ad_N :: c_int
  hmmname :: "int option"
  hmmacc :: "int option"
  hmmdesc :: "int option"
  hmmfrom :: c_int
  hmmto :: c_int
  ad_M :: c_int
  sqname :: "int option"
  sqacc :: "int option"
  sqdesc :: "int option"
  sqfrom :: c_long
  sqto :: c_long
  ad_L :: c_long
  memsize :: c_int
  mem :: "byte list"

record P7_DOMAIN =
  ienv :: c_int
  jenv :: c_int
  iali :: c_int
  jali :: c_int
  envsc :: c_float
  domcorrection :: c_float
  dombias :: c_float
  oasc :: c_float
  bitscore :: c_float
  dcl_lnP :: c_double
  is_reported :: c_int
  is_included :: c_int
  ad :: P7_ALIDISPLAY

record P7_HIT =
  name :: "byte list option"
  acc :: "byte list option"
  desc :: "byte list option"
  sortkey :: c_double
  score :: c_float
  pre_score :: c_float
  sum_score :: c_float
  lnP :: c_double
  pre_lnP :: c_double
  sum_lnP :: c_double
  nexpected :: c_float
  nregions :: c_int
  nclustered :: c_int
  noverlaps :: c_int
  nenvelopes :: c_int
  ndom :: c_int
  flags :: c_int
  nreported :: c_int
  nincluded :: c_int
  best_domain :: c_int
  dcl :: "P7_DOMAIN list"

section \<open>Packing a hit\<close>

definition p7_hit_MPIPackSize :: "P7_HIT \<Rightarrow> status + nat" where
  "p7_hit_MPIPackSize hit =
     mpi_try (MPI_Pack_size 1 MPI_DOUBLE) (\<lambda>sz1.
     mpi_try (MPI_Pack_size 3 MPI_FLOAT) (\<lambda>sz2.
     mpi_try (MPI_Pack_size 3 MPI_DOUBLE) (\<lambda>sz3.
     mpi_try (MPI_Pack_size 1 MPI_FLOAT) (\<lambda>sz4.
     mpi_try (MPI_Pack_size 5 MPI_INT) (\<lambda>sz5.
     mpi_try (MPI_Pack_size 4 MPI_INT) (\<lambda>sz6.
     esl_try (esl_mpi_PackOptSize (name hit)) (\<lambda>sz7.
     esl_try (esl_mpi_PackOptSize (acc hit)) (\<lambda>sz8.
     esl_try (esl_mpi_PackOptSize (desc hit)) (\<lambda>sz9.
     Inr (sz1 + sz2 + sz3 + sz4 + sz5 + sz6 + sz7 + sz8 + sz9))))))))))"

definition p7_hit_MPIPack ::
  "P7_HIT \<Rightarrow> byte list \<Rightarrow> nat \<Rightarrow> nat \<Rightarrow> packed" where
  "p7_hit_MPIPack hit buf n pos =
     pack_try buf (MPI_Pack (word_bytes 8 (sortkey hit)) 1 MPI_DOUBLE buf n pos) (\<lambda>(buf, pos).
     pack_try buf (MPI_Pack (word_bytes 4 (score hit)) 1 MPI_FLOAT buf n pos) (\<lambda>(buf, pos).
     pack_try buf (MPI_Pack (word_bytes 4 (pre_score hit)) 1 MPI_FLOAT buf n pos) (\<lambda>(buf, pos).
     pack_try buf (MPI_Pack (word_bytes 4 (sum_score hit)) 1 MPI_FLOAT buf n pos) (\<lambda>(buf, pos).
     pack_try buf (MPI_Pack (word_bytes 8 (lnP hit)) 1 MPI_DOUBLE buf n pos) (\<lambda>(buf, pos).
     pack_try buf (MPI_Pack (word_bytes 8 (pre_lnP hit)) 1 MPI_DOUBLE buf n pos) (\<lambda>(buf, pos).
     pack_try buf (MPI_Pack (word_bytes 8 (sum_lnP hit)) 1 MPI_DOUBLE buf n pos) (\<lambda>(buf, pos).
     pack_try buf (MPI_Pack (word_bytes 4 (nexpected hit)) 1 MPI_FLOAT buf n pos) (\<lambda>(buf, pos).
     pack_try buf (MPI_Pack (word_bytes 4 (nregions hit)) 1 MPI_INT buf n pos) (\<lambda>(buf, pos).
     pack_try buf (MPI_Pack (word_bytes 4 (nclustered hit)) 1 MPI_INT buf n pos) (\<lambda>(buf, pos).
     pack_try buf (MPI_Pack (word_bytes 4 (noverlaps hit)) 1 MPI_INT buf n pos) (\<lambda>(buf, pos).
     pack_try buf (MPI_Pack (word_bytes 4 (nenvelopes hit)) 1 MPI_INT buf n pos) (\<lambda>(buf, pos).
     pack_try buf (MPI_Pack (word_bytes 4 (ndom hit)) 1 MPI_INT buf n pos) (\<lambda>(buf, pos).
     pack_try buf (MPI_Pack (word_bytes 4 (flags hit)) 1 MPI_INT buf n pos) (\<lambda>(buf, pos).
     pack_try buf (MPI_Pack (word_bytes 4 (nreported hit)) 1 MPI_INT buf n pos) (\<lambda>(buf, pos).
     pack_try buf (MPI_Pack (word_bytes 4 (nincluded hit)) 1 MPI_INT buf n pos) (\<lambda>(buf, pos).
     pack_try buf (MPI_Pack (word_bytes 4 (best_domain hit)) 1 MPI_INT buf n pos) (\<lambda>(buf, pos).
     esl_try (esl_mpi_PackOpt (name hit) buf n pos) (\<lambda>(buf, pos).
     esl_try (esl_mpi_PackOpt (acc hit) buf n pos) (\<lambda>(buf, pos).
     esl_try (esl_mpi_PackOpt (desc hit) buf n pos) (\<lambda>(buf, pos).
     if pos > n then Inl (eslEMEM, buf) else Inr (buf, pos)))))))))))))))))))))"

text \<open>
  \<^verbatim>\<open>p7_hit_MPIUnpack\<close> fills the fields of the hit it is given; the domain list is left to
  \<^verbatim>\<open>p7_hit_MPIRecv\<close>.
\<close>

definition p7_hit_MPIUnpack ::
  "byte list \<Rightarrow> nat \<Rightarrow> nat \<Rightarrow> P7_HIT \<Rightarrow> status + (P7_HIT \<times> nat)" where
  "p7_hit_MPIUnpack buf n pos hit =
     mpi_try (MPI_Unpack buf n pos 1 MPI_DOUBLE) (\<lambda>(v_sortkey, pos).
     mpi_try (MPI_Unpack buf n pos 1 MPI_FLOAT) (\<lambda>(v_score, pos).
     mpi_try (MPI_Unpack buf n pos 1 MPI_FLOAT) (\<lambda>(v_pre_score, pos).
     mpi_try (MPI_Unpack buf n pos 1 MPI_FLOAT) (\<lambda>(v_sum_score, pos).
     mpi_try (MPI_Unpack buf n pos 1 MPI_DOUBLE) (\<lambda>(v_lnP, pos).
     mpi_try (MPI_Unpack buf n pos 1 MPI_DOUBLE) (\<lambda>(v_pre_lnP, pos).
     mpi_try (MPI_Unpack buf n pos 1 MPI_DOUBLE) (\<lambda>(v_sum_lnP, pos).
     mpi_try (MPI_Unpack buf n pos 1 MPI_FLOAT) (\<lambda>(v_nexpected, pos).
     mpi_try (MPI_Unpack buf n pos 1 MPI_INT) (\<lambda>(v_nregions, pos).
     mpi_try (MPI_Unpack buf n pos 1 MPI_INT) (\<lambda>(v_nclustered, pos).
     mpi_try (MPI_Unpack buf n pos 1 MPI_INT) (\<lambda>(v_noverlaps, pos).
     mpi_try (MPI_Unpack buf n pos 1 MPI_INT) (\<lambda>(v_nenvelopes, pos).
     mpi_try (MPI_Unpack buf n pos 1 MPI_INT) (\<lambda>(v_ndom, pos).
     mpi_try (MPI_Unpack buf n pos 1 MPI_INT) (\<lambda>(v_flags, pos).
     mpi_try (MPI_Unpack buf n pos 1 MPI_INT) (\<lambda>(v_nreported, pos).
     mpi_try (MPI_Unpack buf n pos 1 MPI_INT) (\<lambda>(v_nincluded, pos).
     mpi_try (MPI_Unpack buf n pos 1 MPI_INT) (\<lambda>(v_best_domain, pos).
     esl_try (esl_mpi_UnpackOpt buf n pos) (\<lambda>(v_name, pos).
     esl_try (esl_mpi_UnpackOpt buf n pos) (\<lambda>(v_acc, pos).
     esl_try (esl_mpi_UnpackOpt buf n pos) (\<lambda>(v_desc, pos).
     Inr (hit\<lparr>sortkey := bytes_word v_sortkey, score := bytes_word v_score,
                pre_score := bytes_word v_pre_score, sum_score := bytes_word v_sum_score,
                lnP := bytes_word v_lnP, pre_lnP := bytes_word v_pre_lnP,
                sum_lnP := bytes_word v_sum_lnP, nexpected := bytes_word v_nexpected,
                nregions := bytes_word v_nregions, nclustered := bytes_word v_nclustered,
                noverlaps := bytes_word v_noverlaps, nenvelopes := bytes_word v_nenvelopes,
                ndom := bytes_word v_ndom, flags := bytes_word v_flags,
                nreported := bytes_word v_nreported, nincluded := bytes_word v_nincluded,
                best_domain := bytes_word v_best_domain,
                name := v_name, acc := v_acc, desc := v_desc\<rparr>, pos)))))))))))))))))))))"


section \<open>Packing a domain\<close>

text \<open>
  The offset written for a line, \<^verbatim>\<open>(ad->rfline == NULL) ? -1 : ad->rfline - ad->mem\<close>, stored
  in a C \<^verbatim>\<open>int\<close>, and the pointer rebuilt from it,
  \<^verbatim>\<open>(rfline == -1) ? NULL : ad->mem + rfline\<close>.
\<close>

definition ptr_offset :: "int option \<Rightarrow> c_int" where
  "ptr_offset p = (case p of None \<Rightarrow> - 1 | Some k \<Rightarrow> word_of_int k)"

definition offset_ptr :: "c_int \<Rightarrow> int option" where
  "offset_ptr off = (if off = - 1 then None else Some (sint off))"

definition p7_dcl_MPIPackSize :: "P7_DOMAIN \<Rightarrow> status + nat" where
  "p7_dcl_MPIPackSize d =
     mpi_try (MPI_Pack_size 4 MPI_INT) (\<lambda>sz1.
     mpi_try (MPI_Pack_size 5 MPI_FLOAT) (\<lambda>sz2.
     mpi_try (MPI_Pack_size 1 MPI_DOUBLE) (\<lambda>sz3.
     mpi_try (MPI_Pack_size 2 MPI_INT) (\<lambda>sz4.
     mpi_try (MPI_Pack_size 16 MPI_INT) (\<lambda>sz5.
     mpi_try (MPI_Pack_size 3 MPI_LONG) (\<lambda>sz6.
     mpi_try (MPI_Pack_size 1 MPI_INT) (\<lambda>sz7.
     mpi_try (MPI_Pack_size (sint (memsize (ad d))) MPI_CHAR) (\<lambda>sz8.
     Inr (sz1 + sz2 + sz3 + sz4 + sz5 + sz6 + sz7 + sz8)))))))))"

definition p7_dcl_MPIPack ::
  "P7_DOMAIN \<Rightarrow> byte list \<Rightarrow> nat \<Rightarrow> nat \<Rightarrow> packed" where
  "p7_dcl_MPIPack d buf n pos =
     pack_try buf (MPI_Pack (word_bytes 4 (ienv d)) 1 MPI_INT buf n pos) (\<lambda>(buf, pos).
     pack_try buf (MPI_Pack (word_bytes 4 (jenv d)) 1 MPI_INT buf n pos) (\<lambda>(buf, pos).
     pack_try buf (MPI_Pack (word_bytes 4 (iali d)) 1 MPI_INT buf n pos) (\<lambda>(buf, pos).
     pack_try buf (MPI_Pack (word_bytes 4 (jali d)) 1 MPI_INT buf n pos) (\<lambda>(buf, pos).
     pack_try buf (MPI_Pack (word_bytes 4 (envsc d)) 1 MPI_FLOAT buf n pos) (\<lambda>(buf, pos).
     pack_try buf (MPI_Pack (word_bytes 4 (domcorrection d)) 1 MPI_FLOAT buf n pos) (\<lambda>(buf, pos).
     pack_try buf (MPI_Pack (word_bytes 4 (dombias d)) 1 MPI_FLOAT buf n pos) (\<lambda>(buf, pos).
     pack_try buf (MPI_Pack (word_bytes 4 (oasc d)) 1 MPI_FLOAT buf n pos) (\<lambda>(buf, pos).
     pack_try buf (MPI_Pack (word_bytes 4 (bitscore d)) 1 MPI_FLOAT buf n pos) (\<lambda>(buf, pos).
     pack_try buf (MPI_Pack (word_bytes 8 (dcl_lnP d)) 1 MPI_DOUBLE buf n pos) (\<lambda>(buf, pos).
     pack_try buf (MPI_Pack (word_bytes 4 (is_reported d)) 1 MPI_INT buf n pos) (\<lambda>(buf, pos).
     pack_try buf (MPI_Pack (word_bytes 4 (is_included d)) 1 MPI_INT buf n pos) (\<lambda>(buf, pos).
     pack_try buf (MPI_Pack (word_bytes 4 (ptr_offset (rfline (ad d)))) 1 MPI_INT buf n pos) (\<lambda>(buf, pos).
     pack_try buf (MPI_Pack (word_bytes 4 (ptr_offset (mmline (ad d)))) 1 MPI_INT buf n pos) (\<lambda>(buf, pos).
     pack_try buf (MPI_Pack (word_bytes 4 (ptr_offset (csline (ad d)))) 1 MPI_INT buf n pos) (\<lambda>(buf, pos).
     pack_try buf (MPI_Pack (word_bytes 4 (ptr_offset (model (ad d)))) 1 MPI_INT buf n pos) (\<lambda>(buf, pos).
     pack_try buf (MPI_Pack (word_bytes 4 (ptr_offset (mline (ad d)))) 1 MPI_INT buf n pos) (\<lambda>(buf, pos).
     pack_try buf (MPI_Pack (word_bytes 4 (ptr_offset (aseq (ad d)))) 1 MPI_INT buf n pos) (\<lambda>(buf, pos).
     pack_try buf (MPI_Pack (word_bytes 4 (ptr_offset (ppline (ad d)))) 1 MPI_INT buf n pos) (\<lambda>(buf, pos).
     pack_try buf (MPI_Pack (word_bytes 4 (ad_N (ad d))) 1 MPI_INT buf n pos) (\<lambda>(buf, pos).
     pack_try buf (MPI_Pack (word_bytes 4 (ptr_offset (hmmname (ad d)))) 1 MPI_INT buf n pos) (\<lambda>(buf, pos).
     pack_try buf (MPI_Pack (word_bytes 4 (ptr_offset (hmmacc (ad d)))) 1 MPI_INT buf n pos) (\<lambda>(buf, pos).
     pack_try buf (MPI_Pack (word_bytes 4 (ptr_offset (hmmdesc (ad d)))) 1 MPI_INT buf n pos) (\<lambda>(buf, pos).
     pack_try buf (MPI_Pack (word_bytes 4 (hmmfrom (ad d))) 1 MPI_INT buf n pos) (\<lambda>(buf, pos).
     pack_try buf (MPI_Pack (word_bytes 4 (hmmto (ad d))) 1 MPI_INT buf n pos) (\<lambda>(buf, pos).
     pack_try buf (MPI_Pack (word_bytes 4 (ad_M (ad d))) 1 MPI_INT buf n pos) (\<lambda>(buf, pos).
     pack_try buf (MPI_Pack (word_bytes 4 (ptr_offset (sqname (ad d)))) 1 MPI_INT buf n pos) (\<lambda>(buf, pos).
     pack_try buf (MPI_Pack (word_bytes 4 (ptr_offset (sqacc (ad d)))) 1 MPI_INT buf n pos) (\<lambda>(buf, pos).
     pack_try buf (MPI_Pack (word_bytes 4 (ptr_offset (sqdesc (ad d)))) 1 MPI_INT buf n pos) (\<lambda>(buf, pos).
     pack_try buf (MPI_Pack (word_bytes 8 (sqfrom (ad d))) 1 MPI_LONG buf n pos) (\<lambda>(buf, pos).
     pack_try buf (MPI_Pack (word_bytes 8 (sqto (ad d))) 1 MPI_LONG buf n pos) (\<lambda>(buf, pos).
     pack_try buf (MPI_Pack (word_bytes 8 (ad_L (ad d))) 1 MPI_LONG buf n pos) (\<lambda>(buf, pos).
     pack_try buf (MPI_Pack (word_bytes 4 (memsize (ad d))) 1 MPI_INT buf n pos) (\<lambda>(buf, pos).
     pack_try buf (MPI_Pack (mem (ad d)) (sint (memsize (ad d))) MPI_CHAR buf n pos) (\<lambda>(buf, pos).
     if pos > n then Inl (eslEMEM, buf) else Inr (buf, pos)))))))))))))))))))))))))))))))))))"

section \<open>The environment: allocator and message channel\<close>

text \<open>
  The calls that can fail for reasons outside the program (an allocation, a send, a
  probe, a receive) take their outcome from the world: each such call consumes the head
  of <faults>, and fails when it is \<open>True\<close>; with no entry left the call succeeds.
  <queue> holds the messages sent and not yet received, oldest first. <junk> is the
  content of an \<^verbatim>\<open>MPI_Status\<close> that a failed probe leaves unset.
\<close>

record MPI_Status =
  MPI_SOURCE :: int
  MPI_TAG :: int
  st_count :: nat

record message =
  msg_source :: int
  msg_dest :: int
  msg_tag :: int
  msg_data :: "byte list"

record world =
  queue :: "message list"
  faults :: "bool list"
  junk :: MPI_Status

text \<open>A communicator is represented by the rank of the calling process in it.\<close>

type_synonym MPI_Comm = int

definition next_fault :: "world \<Rightarrow> bool \<times> world" where
  "next_fault w = (case faults w of [] \<Rightarrow> (False, w) | f # fs \<Rightarrow> (f, w\<lparr>faults := fs\<rparr>))"

text \<open>
  Modelled from the spec: \<^verbatim>\<open>ESL_ALLOC\<close> and \<^verbatim>\<open>ESL_RALLOC\<close> are macros of \<^verbatim>\<open>easel.h\<close>, not
  under src/. By the spec a pool of size 0 is legal and decoding still allocates a
  zero-length pool object, and an allocation can fail (\<open>AllocationFailure\<close>, <eslEMEM>),
  in which case the buffer already held stays valid. A negative size, which C converts
  to an unsigned size beyond any memory, fails. The result of \<open>ESL_ALLOC\<close> tells whether
  the allocation succeeded. The bytes of fresh memory are indeterminate in C; the model
  zeroes them.
\<close>

definition ESL_ALLOC :: "int \<Rightarrow> world \<Rightarrow> bool \<times> world" where
  "ESL_ALLOC nbytes w =
     (if nbytes < 0 then (False, w)
      else (case next_fault w of (f, w') \<Rightarrow> (\<not> f, w')))"

definition deref :: "byte list option \<Rightarrow> byte list" where
  "deref p = (case p of None \<Rightarrow> [] | Some b \<Rightarrow> b)"

definition ESL_RALLOC :: "byte list option \<Rightarrow> nat \<Rightarrow> world \<Rightarrow> byte list option \<times> world" where
  "ESL_RALLOC p newsize w =
     (case next_fault w of
        (True, w') \<Rightarrow> (None, w')
      | (False, w') \<Rightarrow>
          (Some (take newsize (deref p) @ replicate (newsize - length (deref p)) 0), w'))"

text \<open>
  The sizes of the structures: those of an LP64 layout of the fields above. The
  functions depend only on their being positive.
\<close>

definition sizeof_P7_ALIDISPLAY :: int where
  "sizeof_P7_ALIDISPLAY = 160"

definition sizeof_P7_DOMAIN :: int where
  "sizeof_P7_DOMAIN = 64"

text \<open>
  The two idioms with the world threaded through: a failed MPI call ends the function
  with <eslESYS>, a failed \<^verbatim>\<open>ESL_ALLOC\<close> with <eslEMEM>.
\<close>

definition mpi_tryw ::
  "'a option \<Rightarrow> ('a \<Rightarrow> world \<Rightarrow> (status + 'b) \<times> world) \<Rightarrow> world \<Rightarrow> (status + 'b) \<times> world" where
  "mpi_tryw m f w = (case m of None \<Rightarrow> (Inl eslESYS, w) | Some x \<Rightarrow> f x w)"

definition alloc_try ::
  "int \<Rightarrow> (world \<Rightarrow> (status + 'b) \<times> world) \<Rightarrow> world \<Rightarrow> (status + 'b) \<times> world" where
  "alloc_try nbytes f w =
     (case ESL_ALLOC nbytes w of (False, w') \<Rightarrow> (Inl eslEMEM, w') | (True, w') \<Rightarrow> f w')"

definition p7_dcl_MPIUnpack ::
  "byte list \<Rightarrow> nat \<Rightarrow> nat \<Rightarrow> world \<Rightarrow> (status + (P7_DOMAIN \<times> nat)) \<times> world" where
  "p7_dcl_MPIUnpack buf n pos =
     alloc_try sizeof_P7_ALIDISPLAY (
     mpi_tryw (MPI_Unpack buf n pos 1 MPI_INT) (\<lambda>(v_ienv, pos).
     mpi_tryw (MPI_Unpack buf n pos 1 MPI_INT) (\<lambda>(v_jenv, pos).
     mpi_tryw (MPI_Unpack buf n pos 1 MPI_INT) (\<lambda>(v_iali, pos).
     mpi_tryw (MPI_Unpack buf n pos 1 MPI_INT) (\<lambda>(v_jali, pos).
     mpi_tryw (MPI_Unpack buf n pos 1 MPI_FLOAT) (\<lambda>(v_envsc, pos).
     mpi_tryw (MPI_Unpack buf n pos 1 MPI_FLOAT) (\<lambda>(v_domcorrection, pos).
     mpi_tryw (MPI_Unpack buf n pos 1 MPI_FLOAT) (\<lambda>(v_dombias, pos).
     mpi_tryw (MPI_Unpack buf n pos 1 MPI_FLOAT) (\<lambda>(v_oasc, pos).
     mpi_tryw (MPI_Unpack buf n pos 1 MPI_FLOAT) (\<lambda>(v_bitscore, pos).
     mpi_tryw (MPI_Unpack buf n pos 1 MPI_DOUBLE) (\<lambda>(v_lnP, pos).
     mpi_tryw (MPI_Unpack buf n pos 1 MPI_INT) (\<lambda>(v_is_reported, pos).
     mpi_tryw (MPI_Unpack buf n pos 1 MPI_INT) (\<lambda>(v_is_included, pos).
     mpi_tryw (MPI_Unpack buf n pos 1 MPI_INT) (\<lambda>(v_rfline, pos).
     mpi_tryw (MPI_Unpack buf n pos 1 MPI_INT) (\<lambda>(v_mmline, pos).
     mpi_tryw (MPI_Unpack buf n pos 1 MPI_INT) (\<lambda>(v_csline, pos).
     mpi_tryw (MPI_Unpack buf n pos 1 MPI_INT) (\<lambda>(v_model, pos).
     mpi_tryw (MPI_Unpack buf n pos 1 MPI_INT) (\<lambda>(v_mline, pos).
     mpi_tryw (MPI_Unpack buf n pos 1 MPI_INT) (\<lambda>(v_aseq, pos).
     mpi_tryw (MPI_Unpack buf n pos 1 MPI_INT) (\<lambda>(v_ppline, pos).
     mpi_tryw (MPI_Unpack buf n pos 1 MPI_INT) (\<lambda>(v_ad_N, pos).
     mpi_tryw (MPI_Unpack buf n pos 1 MPI_INT) (\<lambda>(v_hmmname, pos).
     mpi_tryw (MPI_Unpack buf n pos 1 MPI_INT) (\<lambda>(v_hmmacc, pos).
     mpi_tryw (MPI_Unpack buf n pos 1 MPI_INT) (\<lambda>(v_hmmdesc, pos).
     mpi_tryw (MPI_Unpack buf n pos 1 MPI_INT) (\<lambda>(v_hmmfrom, pos).
     mpi_tryw (MPI_Unpack buf n pos 1 MPI_INT) (\<lambda>(v_hmmto, pos).
     mpi_tryw (MPI_Unpack buf n pos 1 MPI_INT) (\<lambda>(v_ad_M, pos).
     mpi_tryw (MPI_Unpack buf n pos 1 MPI_INT) (\<lambda>(v_sqname, pos).
     mpi_tryw (MPI_Unpack buf n pos 1 MPI_INT) (\<lambda>(v_sqacc, pos).
     mpi_tryw (MPI_Unpack buf n pos 1 MPI_INT) (\<lambda>(v_sqdesc, pos).
     mpi_tryw (MPI_Unpack buf n pos 1 MPI_LONG) (\<lambda>(v_sqfrom, pos).
     mpi_tryw (MPI_Unpack buf n pos 1 MPI_LONG) (\<lambda>(v_sqto, pos).
     mpi_tryw (MPI_Unpack buf n pos 1 MPI_LONG) (\<lambda>(v_ad_L, pos).
     mpi_tryw (MPI_Unpack buf n pos 1 MPI_INT) (\<lambda>(v_memsize, pos).
     alloc_try (sint (bytes_word v_memsize :: c_int)) (
     mpi_tryw (MPI_Unpack buf n pos (sint (bytes_word v_memsize :: c_int)) MPI_CHAR) (\<lambda>(v_mem, pos).
     Pair (Inr (\<lparr>ienv = bytes_word v_ienv, jenv = bytes_word v_jenv, iali = bytes_word v_iali,
              jali = bytes_word v_jali, envsc = bytes_word v_envsc,
              domcorrection = bytes_word v_domcorrection, dombias = bytes_word v_dombias,
              oasc = bytes_word v_oasc, bitscore = bytes_word v_bitscore,
              dcl_lnP = bytes_word v_lnP, is_reported = bytes_word v_is_reported,
              is_included = bytes_word v_is_included,
              ad = \<lparr>rfline = offset_ptr (bytes_word v_rfline),
                     mmline = offset_ptr (bytes_word v_mmline),
                     csline = offset_ptr (bytes_word v_csline),
                     model = offset_ptr (bytes_word v_model),
                     mline = offset_ptr (bytes_word v_mline),
                     aseq = offset_ptr (bytes_word v_aseq),
                     ppline = offset_ptr (bytes_word v_ppline),
                     ad_N = bytes_word v_ad_N,
                     hmmname = offset_ptr (bytes_word v_hmmname),
                     hmmacc = offset_ptr (bytes_word v_hmmacc),
                     hmmdesc = offset_ptr (bytes_word v_hmmdesc),
                     hmmfrom = bytes_word v_hmmfrom, hmmto = bytes_word v_hmmto,
                     ad_M = bytes_word v_ad_M,
                     sqname = offset_ptr (bytes_word v_sqname),
                     sqacc = offset_ptr (bytes_word v_sqacc),
                     sqdesc = offset_ptr (bytes_word v_sqdesc),
                     sqfrom = bytes_word v_sqfrom, sqto = bytes_word v_sqto,
                     ad_L = bytes_word v_ad_L,
                     memsize = bytes_word v_memsize, mem = v_mem\<rparr>\<rparr>, pos))))))))))))))))))))))))))))))))))))))"

section \<open>The message channel\<close>

text \<open>
  \<^verbatim>\<open>MPI_Send(buf, count, MPI_PACKED, dest, tag, comm)\<close> appends the first <count> bytes of the
  buffer to the queue; the result is the return code, 0 for success.
\<close>

definition MPI_Send ::
  "byte list \<Rightarrow> nat \<Rightarrow> int \<Rightarrow> int \<Rightarrow> MPI_Comm \<Rightarrow> world \<Rightarrow> int \<times> world" where
  "MPI_Send b count dest tag comm w =
     (case next_fault w of
        (True, w') \<Rightarrow> (1, w')
      | (False, w') \<Rightarrow>
          (0, w'\<lparr>queue := queue w' @
                 [\<lparr>msg_source = comm, msg_dest = dest, msg_tag = tag,
                   msg_data = take count b\<rparr>]\<rparr>))"

text \<open>
  The wildcards of \<^verbatim>\<open>mpi.h\<close> (the values of MPICH; ranks and tags of messages are not
  negative), and the matching rule of MPI: a message is for the process it was sent to,
  from the source asked for and with the tag asked for.
\<close>

definition MPI_ANY_SOURCE :: int where
  "MPI_ANY_SOURCE = - 2"

definition MPI_ANY_TAG :: int where
  "MPI_ANY_TAG = - 1"

definition msg_matches :: "int \<Rightarrow> int \<Rightarrow> MPI_Comm \<Rightarrow> message \<Rightarrow> bool" where
  "msg_matches source tag comm m \<longleftrightarrow>
     msg_dest m = comm \<and> (source = MPI_ANY_SOURCE \<or> msg_source m = source)
     \<and> (tag = MPI_ANY_TAG \<or> msg_tag m = tag)"

text \<open>
  \<^verbatim>\<open>MPI_Probe\<close> blocks until a matching message is pending: with none in the queue it does
  not return, which is the result \<open>None\<close>. Otherwise the result is the return code and
  the status it sets. \<^verbatim>\<open>MPI_Get_count(&mpistatus, MPI_PACKED, &n)\<close> reads the length.
\<close>

definition MPI_Probe ::
  "int \<Rightarrow> int \<Rightarrow> MPI_Comm \<Rightarrow> world \<Rightarrow> (int \<times> MPI_Status \<times> world) option" where
  "MPI_Probe source tag comm w =
     (case next_fault w of
        (True, w') \<Rightarrow> Some (1, junk w', w')
      | (False, w') \<Rightarrow>
          (case find (msg_matches source tag comm) (queue w') of
             None \<Rightarrow> None
           | Some m \<Rightarrow>
               Some (0, \<lparr>MPI_SOURCE = msg_source m, MPI_TAG = msg_tag m,
                         st_count = length (msg_data m)\<rparr>, w')))"

definition MPI_Get_count :: "MPI_Status \<Rightarrow> nat" where
  "MPI_Get_count mpistatus = st_count mpistatus"

text \<open>
  \<^verbatim>\<open>MPI_Recv(buf, count, MPI_PACKED, source, tag, comm, &mpistatus)\<close> takes the first
  matching message out of the queue and writes its bytes, at most <count>, at the start
  of the buffer. A failed receive leaves buffer and queue as they are. The result is the
  return code and the buffer.
\<close>

definition MPI_Recv ::
  "byte list \<Rightarrow> nat \<Rightarrow> int \<Rightarrow> int \<Rightarrow> MPI_Comm \<Rightarrow> world \<Rightarrow> (int \<times> byte list \<times> world) option" where
  "MPI_Recv b count source tag comm w =
     (case next_fault w of
        (True, w') \<Rightarrow> Some (1, b, w')
      | (False, w') \<Rightarrow>
          (case find (msg_matches source tag comm) (queue w') of
             None \<Rightarrow> None
           | Some m \<Rightarrow>
               Some (if length (msg_data m) \<le> count then 0 else 1,
                     take count (msg_data m) @ drop (length (take count (msg_data m))) b,
                     w'\<lparr>queue := remove1 m (queue w')\<rparr>)))"

section \<open>The wire buffer\<close>

text \<open>
  The caller's \<^verbatim>\<open>char **buf\<close> and \<^verbatim>\<open>int *nalloc\<close> travel with the world as one state:
  the buffer (\<open>None\<close> is NULL), its recorded capacity, the world.

  \<open>buf_ensure\<close> is the block "Make sure the buffer is allocated appropriately", which
  \<^verbatim>\<open>p7_tophits_MPISend\<close>, \<^verbatim>\<open>p7_tophits_MPIRecv\<close>, \<^verbatim>\<open>p7_hit_MPIRecv\<close> and \<^verbatim>\<open>p7_dcl_MPIRecv\<close>
  each contain:
  \<^verbatim>\<open>if (*buf == NULL || n > *nalloc) { ESL_RALLOC(*buf, tmp, sizeof(char) * n); *nalloc = n; }\<close>
\<close>

type_synonym xfer = "byte list option \<times> nat \<times> world"

definition buf_ensure :: "nat \<Rightarrow> xfer \<Rightarrow> status \<times> xfer" where
  "buf_ensure n = (\<lambda>(buf, nalloc, w).
     if buf = None \<or> n > nalloc then
       (case ESL_RALLOC buf n w of
          (None, w') \<Rightarrow> (eslEMEM, buf, nalloc, w')
        | (Some b, w') \<Rightarrow> (eslOK, Some b, n, w'))
     else (eslOK, buf, nalloc, w))"

section \<open>Sending\<close>

text \<open>
  The sending functions pack into \<^verbatim>\<open>*buf\<close> with \<^verbatim>\<open>n = *nalloc\<close> as its size. When packing
  fails they return the status with the buffer as packing left it; a buffer that is
  NULL stays NULL.
\<close>

definition p7_dcl_MPISend ::
  "P7_DOMAIN \<Rightarrow> int \<Rightarrow> int \<Rightarrow> MPI_Comm \<Rightarrow> xfer \<Rightarrow> status \<times> xfer" where
  "p7_dcl_MPISend d dest tag comm = (\<lambda>(buf, nalloc, w).
     let n = nalloc in
     case p7_dcl_MPIPack d (deref buf) n 0 of
       Inl (e, b) \<Rightarrow> (e, map_option (\<lambda>_. b) buf, nalloc, w)
     | Inr (b, pos) \<Rightarrow>
         (case MPI_Send b n dest tag comm w of
            (rc, w') \<Rightarrow>
              if rc \<noteq> 0 then (eslESYS, Some b, nalloc, w') else (eslOK, Some b, nalloc, w')))"

text \<open>The loop of \<^verbatim>\<open>p7_hit_MPISend\<close> over the domains \<^verbatim>\<open>hit->dcl + inx\<close>, \<^verbatim>\<open>inx < hit->ndom\<close>.\<close>

fun p7_hit_MPISend_loop ::
  "P7_DOMAIN list \<Rightarrow> int \<Rightarrow> int \<Rightarrow> MPI_Comm \<Rightarrow> xfer \<Rightarrow> status \<times> xfer" where
  "p7_hit_MPISend_loop [] dest tag comm x = (eslOK, x)"
| "p7_hit_MPISend_loop (d # ds) dest tag comm x =
     (case p7_dcl_MPISend d dest tag comm x of
        (st, x') \<Rightarrow>
          if st \<noteq> eslOK then (st, x') else p7_hit_MPISend_loop ds dest tag comm x')"

definition p7_hit_MPISend ::
  "P7_HIT \<Rightarrow> int \<Rightarrow> int \<Rightarrow> MPI_Comm \<Rightarrow> xfer \<Rightarrow> status \<times> xfer" where
  "p7_hit_MPISend hit dest tag comm = (\<lambda>(buf, nalloc, w).
     let n = nalloc in
     case p7_hit_MPIPack hit (deref buf) n 0 of
       Inl (e, b) \<Rightarrow> (e, map_option (\<lambda>_. b) buf, nalloc, w)
     | Inr (b, pos) \<Rightarrow>
         (case MPI_Send b n dest tag comm w of
            (rc, w') \<Rightarrow>
              if rc \<noteq> 0 then (eslESYS, Some b, nalloc, w')
              else p7_hit_MPISend_loop (take (nat (sint (ndom hit))) (dcl hit))
                     dest tag comm (Some b, nalloc, w')))"

text \<open>
  A \<^verbatim>\<open>P7_TOPHITS\<close>: the array <unsrt> of its hits, whose length is the field <N>
  (\<^verbatim>\<open>uint64_t\<close>), and the two counters.
\<close>

record P7_TOPHITS =
  unsrt :: "P7_HIT list"
  th_nreported :: c_long
  th_nincluded :: c_long

definition th_N :: "P7_TOPHITS \<Rightarrow> c_long" where
  "th_N th = word_of_nat (length (unsrt th))"

text \<open>
  The first loops of \<^verbatim>\<open>p7_tophits_MPISend\<close> ("calculate the buffer size needed to hold
  the largest hit"): over the domains of one hit, then over the hits. The state is
  <sz> and the pointer <dcl>.
\<close>

fun largest_dcl_of_hit :: "P7_DOMAIN list \<Rightarrow> int \<times> P7_DOMAIN option \<Rightarrow> int \<times> P7_DOMAIN option" where
  "largest_dcl_of_hit [] (sz, p) = (sz, p)"
| "largest_dcl_of_hit (d # ds) (sz, p) =
     (if sz \<le> sint (memsize (ad d)) then largest_dcl_of_hit ds (sint (memsize (ad d)), Some d)
      else largest_dcl_of_hit ds (sz, p))"

fun largest_dcl :: "P7_HIT list \<Rightarrow> int \<times> P7_DOMAIN option \<Rightarrow> int \<times> P7_DOMAIN option" where
  "largest_dcl [] best = best"
| "largest_dcl (hit # hits) best =
     largest_dcl hits (largest_dcl_of_hit (take (nat (sint (ndom hit))) (dcl hit)) best)"

text \<open>
  The size <n> that \<^verbatim>\<open>p7_tophits_MPISend\<close> computes before it touches the buffer:
  everything up to \<^verbatim>\<open>n = (n > sz) ? n : sz\<close> after the envelope's \<^verbatim>\<open>MPI_Pack_size\<close>.
\<close>

definition p7_tophits_MPISend_size :: "P7_TOPHITS \<Rightarrow> status + nat" where
  "p7_tophits_MPISend_size th =
     (case largest_dcl (unsrt th) (0, None) of
        (sz0, p) \<Rightarrow>
          esl_try
            (case unsrt th of
               [] \<Rightarrow> Inr 0
             | hit # _ \<Rightarrow>
                 esl_try (p7_hit_MPIPackSize hit) (\<lambda>n.
                 case p of
                   None \<Rightarrow> Inr n
                 | Some d \<Rightarrow>
                     esl_try (p7_dcl_MPIPackSize d) (\<lambda>sz.
                     Inr (if n > sz then n else sz))))
            (\<lambda>n.
          mpi_try (MPI_Pack_size 3 MPI_LONG_LONG_INT) (\<lambda>sz.
          Inr (if n > sz then n else sz))))"

text \<open>The last loop of \<^verbatim>\<open>p7_tophits_MPISend\<close>, over the hits.\<close>

fun p7_tophits_MPISend_loop ::
  "P7_HIT list \<Rightarrow> int \<Rightarrow> int \<Rightarrow> MPI_Comm \<Rightarrow> xfer \<Rightarrow> status \<times> xfer" where
  "p7_tophits_MPISend_loop [] dest tag comm x = (eslOK, x)"
| "p7_tophits_MPISend_loop (hit # hits) dest tag comm x =
     (case p7_hit_MPISend hit dest tag comm x of
        (st, x') \<Rightarrow>
          if st \<noteq> eslOK then (st, x') else p7_tophits_MPISend_loop hits dest tag comm x')"

definition p7_tophits_MPISend ::
  "P7_TOPHITS \<Rightarrow> int \<Rightarrow> int \<Rightarrow> MPI_Comm \<Rightarrow> xfer \<Rightarrow> status \<times> xfer" where
  "p7_tophits_MPISend th dest tag comm = (\<lambda>(buf, nalloc, w).
     case p7_tophits_MPISend_size th of
       Inl e \<Rightarrow> (e, buf, nalloc, w)
     | Inr n \<Rightarrow>
         (case buf_ensure n (buf, nalloc, w) of
            (st, buf, nalloc, w) \<Rightarrow>
              if st \<noteq> eslOK then (st, buf, nalloc, w)
              else
                (case
                   pack_try (deref buf)
                     (MPI_Pack (word_bytes 8 (th_N th)) 1 MPI_LONG_LONG_INT (deref buf) n 0)
                     (\<lambda>(b, pos).
                   pack_try b
                     (MPI_Pack (word_bytes 8 (th_nreported th)) 1 MPI_LONG_LONG_INT b n pos)
                     (\<lambda>(b, pos).
                   pack_try b
                     (MPI_Pack (word_bytes 8 (th_nincluded th)) 1 MPI_LONG_LONG_INT b n pos)
                     Inr))
                 of
                   Inl (e, b) \<Rightarrow> (e, map_option (\<lambda>_. b) buf, nalloc, w)
                 | Inr (b, pos) \<Rightarrow>
                     (case MPI_Send b n dest tag comm w of
                        (rc, w') \<Rightarrow>
                          if rc \<noteq> 0 then (eslESYS, Some b, nalloc, w')
                          else if unsrt th = [] then (eslOK, Some b, nalloc, w')
                          else p7_tophits_MPISend_loop (unsrt th) dest tag comm
                                 (Some b, nalloc, w')))))"

section \<open>Receiving\<close>

text \<open>
  A receiving function blocks in \<^verbatim>\<open>MPI_Probe\<close> or \<^verbatim>\<open>MPI_Recv\<close> when no matching message
  is pending: the result \<open>None\<close> is a call that does not return. The return values of
  \<^verbatim>\<open>MPI_Probe\<close>, \<^verbatim>\<open>MPI_Get_count\<close> and \<^verbatim>\<open>MPI_Recv\<close> are not looked at by the source.
  \<^verbatim>\<open>p7_dcl_MPIRecv\<close> unpacks with \<^verbatim>\<open>*nalloc\<close> as the buffer length, \<^verbatim>\<open>p7_hit_MPIRecv\<close> with
  the probed length <n>.
\<close>

definition p7_dcl_MPIRecv ::
  "int \<Rightarrow> int \<Rightarrow> MPI_Comm \<Rightarrow> xfer \<Rightarrow> ((status + P7_DOMAIN) \<times> xfer) option" where
  "p7_dcl_MPIRecv source tag comm = (\<lambda>(buf, nalloc, w).
     case MPI_Probe source tag comm w of
       None \<Rightarrow> None
     | Some (rc, mpistatus, w) \<Rightarrow>
         let n = MPI_Get_count mpistatus in
         if tag \<noteq> MPI_ANY_TAG \<and> MPI_TAG mpistatus \<noteq> tag then
           Some (Inl eslFAIL, buf, nalloc, w)
         else if source \<noteq> MPI_ANY_SOURCE \<and> MPI_SOURCE mpistatus \<noteq> source then
           Some (Inl eslFAIL, buf, nalloc, w)
         else
           (case buf_ensure n (buf, nalloc, w) of
              (st, buf, nalloc, w) \<Rightarrow>
                if st \<noteq> eslOK then Some (Inl st, buf, nalloc, w)
                else
                  (case MPI_Recv (deref buf) n (MPI_SOURCE mpistatus) (MPI_TAG mpistatus)
                          comm w of
                     None \<Rightarrow> None
                   | Some (rc, b, w) \<Rightarrow>
                       (case p7_dcl_MPIUnpack b nalloc 0 w of
                          (Inl e, w) \<Rightarrow> Some (Inl e, Some b, nalloc, w)
                        | (Inr (d, pos), w) \<Rightarrow> Some (Inr d, Some b, nalloc, w)))))"

text \<open>
  The loop of \<^verbatim>\<open>p7_hit_MPIRecv\<close> over \<^verbatim>\<open>inx < hit->ndom\<close>, which fills \<^verbatim>\<open>hit->dcl + inx\<close>.
\<close>

fun p7_hit_MPIRecv_loop ::
  "nat \<Rightarrow> int \<Rightarrow> int \<Rightarrow> MPI_Comm \<Rightarrow> xfer \<Rightarrow> ((status + P7_DOMAIN list) \<times> xfer) option" where
  "p7_hit_MPIRecv_loop 0 source tag comm x = Some (Inr [], x)"
| "p7_hit_MPIRecv_loop (Suc k) source tag comm x =
     (case p7_dcl_MPIRecv source tag comm x of
        None \<Rightarrow> None
      | Some (Inl e, x') \<Rightarrow> Some (Inl e, x')
      | Some (Inr d, x') \<Rightarrow>
          (case p7_hit_MPIRecv_loop k source tag comm x' of
             None \<Rightarrow> None
           | Some (Inl e, x'') \<Rightarrow> Some (Inl e, x'')
           | Some (Inr ds, x'') \<Rightarrow> Some (Inr (d # ds), x'')))"

definition p7_hit_MPIRecv ::
  "int \<Rightarrow> int \<Rightarrow> MPI_Comm \<Rightarrow> P7_HIT \<Rightarrow> xfer \<Rightarrow> ((status + P7_HIT) \<times> xfer) option" where
  "p7_hit_MPIRecv source tag comm hit = (\<lambda>(buf, nalloc, w).
     case MPI_Probe source tag comm w of
       None \<Rightarrow> None
     | Some (rc, mpistatus, w) \<Rightarrow>
         let n = MPI_Get_count mpistatus in
         if tag \<noteq> MPI_ANY_TAG \<and> MPI_TAG mpistatus \<noteq> tag then
           Some (Inl eslFAIL, buf, nalloc, w)
         else if source \<noteq> MPI_ANY_SOURCE \<and> MPI_SOURCE mpistatus \<noteq> source then
           Some (Inl eslFAIL, buf, nalloc, w)
         else
           (case buf_ensure n (buf, nalloc, w) of
              (st, buf, nalloc, w) \<Rightarrow>
                if st \<noteq> eslOK then Some (Inl st, buf, nalloc, w)
                else
                  (case MPI_Recv (deref buf) n (MPI_SOURCE mpistatus) (MPI_TAG mpistatus)
                          comm w of
                     None \<Rightarrow> None
                   | Some (rc, b, w) \<Rightarrow>
                       (case p7_hit_MPIUnpack b n 0 hit of
                          Inl e \<Rightarrow> Some (Inl e, Some b, nalloc, w)
                        | Inr (hit, pos) \<Rightarrow>
                            (case ESL_ALLOC (sizeof_P7_DOMAIN * sint (ndom hit)) w of
                               (False, w) \<Rightarrow> Some (Inl eslEMEM, Some b, nalloc, w)
                             | (True, w) \<Rightarrow>
                                 (case p7_hit_MPIRecv_loop (nat (sint (ndom hit)))
                                         (MPI_SOURCE mpistatus) (MPI_TAG mpistatus) comm
                                         (Some b, nalloc, w) of
                                    None \<Rightarrow> None
                                  | Some (Inl e, x) \<Rightarrow> Some (Inl e, x)
                                  | Some (Inr ds, x) \<Rightarrow>
                                      Some (Inr (hit\<lparr>dcl := ds\<rparr>), x)))))))"

text \<open>
  Modelled from the spec: \<^verbatim>\<open>p7_tophits_Create\<close> and \<^verbatim>\<open>p7_tophits_CreateNextHit\<close> are in
  \<^verbatim>\<open>base/p7_tophits.c\<close>, not under src/. By the spec they are a factory that allocates
  an empty result collection, and a constructor that appends a freshly allocated hit
  record to a collection and returns a reference for the decoder to fill in. Both
  allocate, so both can fail.
\<close>

definition p7_tophits_Create :: "world \<Rightarrow> P7_TOPHITS option \<times> world" where
  "p7_tophits_Create w =
     (case next_fault w of
        (True, w') \<Rightarrow> (None, w')
      | (False, w') \<Rightarrow> (Some \<lparr>unsrt = [], th_nreported = 0, th_nincluded = 0\<rparr>, w'))"

definition fresh_hit :: P7_HIT where
  "fresh_hit =
     \<lparr>name = None, acc = None, desc = None, sortkey = 0, score = 0, pre_score = 0,
      sum_score = 0, lnP = 0, pre_lnP = 0, sum_lnP = 0, nexpected = 0, nregions = 0,
      nclustered = 0, noverlaps = 0, nenvelopes = 0, ndom = 0, flags = 0, nreported = 0,
      nincluded = 0, best_domain = 0, dcl = []\<rparr>"

definition p7_tophits_CreateNextHit ::
  "P7_TOPHITS \<Rightarrow> world \<Rightarrow> (status + (P7_TOPHITS \<times> P7_HIT)) \<times> world" where
  "p7_tophits_CreateNextHit th w =
     (case next_fault w of
        (True, w') \<Rightarrow> (Inl eslEMEM, w')
      | (False, w') \<Rightarrow> (Inr (th\<lparr>unsrt := unsrt th @ [fresh_hit]\<rparr>, fresh_hit), w'))"

text \<open>
  The loop of \<^verbatim>\<open>p7_tophits_MPIRecv\<close> over \<^verbatim>\<open>inx < nhits\<close>. The hit that
  \<^verbatim>\<open>p7_tophits_CreateNextHit\<close> appended is filled in place by \<^verbatim>\<open>p7_hit_MPIRecv\<close>.
\<close>

fun p7_tophits_MPIRecv_loop ::
  "nat \<Rightarrow> int \<Rightarrow> int \<Rightarrow> MPI_Comm \<Rightarrow> P7_TOPHITS \<Rightarrow> xfer \<Rightarrow> ((status + P7_TOPHITS) \<times> xfer) option" where
  "p7_tophits_MPIRecv_loop 0 source tag comm th x = Some (Inr th, x)"
| "p7_tophits_MPIRecv_loop (Suc k) source tag comm th (buf, nalloc, w) =
     (case p7_tophits_CreateNextHit th w of
        (Inl e, w') \<Rightarrow> Some (Inl e, buf, nalloc, w')
      | (Inr (th', hit), w') \<Rightarrow>
          (case p7_hit_MPIRecv source tag comm hit (buf, nalloc, w') of
             None \<Rightarrow> None
           | Some (Inl e, x') \<Rightarrow> Some (Inl e, x')
           | Some (Inr hit', x') \<Rightarrow>
               p7_tophits_MPIRecv_loop k source tag comm
                 (th'\<lparr>unsrt := butlast (unsrt th') @ [hit']\<rparr>) x'))"

text \<open>
  \<^verbatim>\<open>p7_tophits_MPIRecv\<close>: the result is the status returned and \<^verbatim>\<open>*ret_th\<close>, \<open>None\<close> for
  NULL. Every \<^verbatim>\<open>goto ERROR\<close> destroys the collection built so far and returns NULL.
\<close>

definition p7_tophits_MPIRecv ::
  "int \<Rightarrow> int \<Rightarrow> MPI_Comm \<Rightarrow> xfer \<Rightarrow> (status \<times> P7_TOPHITS option \<times> xfer) option" where
  "p7_tophits_MPIRecv source tag comm = (\<lambda>(buf, nalloc, w).
     case MPI_Probe source tag comm w of
       None \<Rightarrow> None
     | Some (rc, mpistatus, w) \<Rightarrow>
         let n = MPI_Get_count mpistatus in
         if tag \<noteq> MPI_ANY_TAG \<and> MPI_TAG mpistatus \<noteq> tag then
           Some (eslFAIL, None, buf, nalloc, w)
         else if source \<noteq> MPI_ANY_SOURCE \<and> MPI_SOURCE mpistatus \<noteq> source then
           Some (eslFAIL, None, buf, nalloc, w)
         else
           (case buf_ensure n (buf, nalloc, w) of
              (st, buf, nalloc, w) \<Rightarrow>
                if st \<noteq> eslOK then Some (st, None, buf, nalloc, w)
                else
                  (case MPI_Recv (deref buf) n (MPI_SOURCE mpistatus) (MPI_TAG mpistatus)
                          comm w of
                     None \<Rightarrow> None
                   | Some (rc, b, w) \<Rightarrow>
                       (case p7_tophits_Create w of
                          (None, w) \<Rightarrow> Some (eslEMEM, None, Some b, nalloc, w)
                        | (Some th, w) \<Rightarrow>
                            (case
                               mpi_try (MPI_Unpack b n 0 1 MPI_LONG_LONG_INT) (\<lambda>(v_nhits, pos).
                               mpi_try (MPI_Unpack b n pos 1 MPI_LONG_LONG_INT)
                                 (\<lambda>(v_nreported, pos).
                               mpi_try (MPI_Unpack b n pos 1 MPI_LONG_LONG_INT)
                                 (\<lambda>(v_nincluded, pos).
                               Inr (bytes_word v_nhits :: c_long,
                                    th\<lparr>th_nreported := bytes_word v_nreported,
                                       th_nincluded := bytes_word v_nincluded\<rparr>))))
                             of
                               Inl e \<Rightarrow> Some (e, None, Some b, nalloc, w)
                             | Inr (nhits, th) \<Rightarrow>
                                 (case p7_tophits_MPIRecv_loop (unat nhits)
                                         (MPI_SOURCE mpistatus) (MPI_TAG mpistatus) comm th
                                         (Some b, nalloc, w) of
                                    None \<Rightarrow> None
                                  | Some (Inl e, x) \<Rightarrow> Some (e, None, x)
                                  | Some (Inr th, x) \<Rightarrow> Some (eslOK, Some th, x)))))))"

section \<open>Wire images and well-formed records\<close>

text \<open>
  What follows is not in the source: it is the vocabulary of the theorems. \<open>forget_buf\<close>
  keeps the status of a failed packing function and drops the buffer; \<open>keeps_len\<close> says
  that the buffer a packing function leaves, whether it fails or not, has the given
  length. \<open>put\<close> is one write of known bytes into the buffer; \<open>hit_wire\<close> and \<open>dcl_wire\<close>
  are the bytes a record is expected to occupy, field after field.
\<close>

definition forget_buf :: "('e \<times> 'b) + 'a \<Rightarrow> 'e + 'a" where
  "forget_buf r = (case r of Inl (e, b) \<Rightarrow> Inl e | Inr x \<Rightarrow> Inr x)"

definition keeps_len :: "nat \<Rightarrow> packed \<Rightarrow> bool" where
  "keeps_len l r = (case r of Inl (e, b) \<Rightarrow> length b = l | Inr (b, p) \<Rightarrow> length b = l)"

definition put :: "byte list \<Rightarrow> byte list \<Rightarrow> nat \<Rightarrow> nat \<Rightarrow> (byte list \<times> nat) option" where
  "put bs buf n pos =
     (if n < pos + length bs then None
      else Some (take pos buf @ bs @ drop (pos + length bs) buf, pos + length bs))"

definition opt_wire :: "byte list option \<Rightarrow> byte list" where
  "opt_wire s =
     (case s of
        None \<Rightarrow> word_bytes 4 (0 :: c_int)
      | Some s \<Rightarrow> word_bytes 4 (1 :: c_int) @ word_bytes 4 (word_of_nat (length s) :: c_int) @ s)"

text \<open>The length of a string has to fit the C \<^verbatim>\<open>int\<close> it is sent in.\<close>

definition str_ok :: "byte list option \<Rightarrow> bool" where
  "str_ok s = (case s of None \<Rightarrow> True | Some s \<Rightarrow> length s < 2 ^ 31)"

definition hit_ok :: "P7_HIT \<Rightarrow> bool" where
  "hit_ok hit \<longleftrightarrow> str_ok (name hit) \<and> str_ok (acc hit) \<and> str_ok (desc hit)"

definition hit_wire :: "P7_HIT \<Rightarrow> byte list" where
  "hit_wire hit =
     word_bytes 8 (sortkey hit) @ word_bytes 4 (score hit) @ word_bytes 4 (pre_score hit)
     @ word_bytes 4 (sum_score hit) @ word_bytes 8 (lnP hit) @ word_bytes 8 (pre_lnP hit)
     @ word_bytes 8 (sum_lnP hit) @ word_bytes 4 (nexpected hit) @ word_bytes 4 (nregions hit)
     @ word_bytes 4 (nclustered hit) @ word_bytes 4 (noverlaps hit)
     @ word_bytes 4 (nenvelopes hit) @ word_bytes 4 (ndom hit) @ word_bytes 4 (flags hit)
     @ word_bytes 4 (nreported hit) @ word_bytes 4 (nincluded hit)
     @ word_bytes 4 (best_domain hit)
     @ opt_wire (name hit) @ opt_wire (acc hit) @ opt_wire (desc hit)"

text \<open>
  The thirteen line and metadata references of a display, in the order in which they
  are packed. The invariant of the data model: the pool has <memsize> bytes, and every
  reference that is present points into the pool.
\<close>

definition ad_lines :: "P7_ALIDISPLAY \<Rightarrow> int option list" where
  "ad_lines a = [rfline a, mmline a, csline a, model a, mline a, aseq a, ppline a,
                 hmmname a, hmmacc a, hmmdesc a, sqname a, sqacc a, sqdesc a]"

definition line_ok :: "P7_ALIDISPLAY \<Rightarrow> int option \<Rightarrow> bool" where
  "line_ok a r = (case r of None \<Rightarrow> True | Some k \<Rightarrow> 0 \<le> k \<and> k < int (length (mem a)))"

definition display_ok :: "P7_ALIDISPLAY \<Rightarrow> bool" where
  "display_ok a \<longleftrightarrow>
     sint (memsize a) = int (length (mem a)) \<and> list_all (line_ok a) (ad_lines a)"

definition dcl_wire :: "P7_DOMAIN \<Rightarrow> byte list" where
  "dcl_wire d =
     word_bytes 4 (ienv d)
     @ word_bytes 4 (jenv d)
     @ word_bytes 4 (iali d)
     @ word_bytes 4 (jali d)
     @ word_bytes 4 (envsc d)
     @ word_bytes 4 (domcorrection d)
     @ word_bytes 4 (dombias d)
     @ word_bytes 4 (oasc d)
     @ word_bytes 4 (bitscore d)
     @ word_bytes 8 (dcl_lnP d)
     @ word_bytes 4 (is_reported d)
     @ word_bytes 4 (is_included d)
     @ word_bytes 4 (ptr_offset (rfline (ad d)))
     @ word_bytes 4 (ptr_offset (mmline (ad d)))
     @ word_bytes 4 (ptr_offset (csline (ad d)))
     @ word_bytes 4 (ptr_offset (model (ad d)))
     @ word_bytes 4 (ptr_offset (mline (ad d)))
     @ word_bytes 4 (ptr_offset (aseq (ad d)))
     @ word_bytes 4 (ptr_offset (ppline (ad d)))
     @ word_bytes 4 (ad_N (ad d))
     @ word_bytes 4 (ptr_offset (hmmname (ad d)))
     @ word_bytes 4 (ptr_offset (hmmacc (ad d)))
     @ word_bytes 4 (ptr_offset (hmmdesc (ad d)))
     @ word_bytes 4 (hmmfrom (ad d))
     @ word_bytes 4 (hmmto (ad d))
     @ word_bytes 4 (ad_M (ad d))
     @ word_bytes 4 (ptr_offset (sqname (ad d)))
     @ word_bytes 4 (ptr_offset (sqacc (ad d)))
     @ word_bytes 4 (ptr_offset (sqdesc (ad d)))
     @ word_bytes 8 (sqfrom (ad d))
     @ word_bytes 8 (sqto (ad d))
     @ word_bytes 8 (ad_L (ad d))
     @ word_bytes 4 (memsize (ad d))
     @ mem (ad d)"

text \<open>
  The \<^verbatim>\<open>int\<close> stored at byte <k> of a buffer, and the places of the thirteen offset
  fields in a domain message that starts at <pos>: after the twelve fields of the
  domain (52 bytes), with <N> and <hmmfrom>, <hmmto>, <M> in between.
\<close>

definition wire_int :: "byte list \<Rightarrow> nat \<Rightarrow> c_int" where
  "wire_int buf k = bytes_word (take 4 (drop k buf))"

definition line_fields :: "nat \<Rightarrow> nat list" where
  "line_fields pos =
     [pos + 52, pos + 56, pos + 60, pos + 64, pos + 68, pos + 72, pos + 76,
      pos + 84, pos + 88, pos + 92, pos + 108, pos + 112, pos + 116]"

text \<open>
  The state of a transfer is well formed when the buffer has the capacity recorded for
  it, which is 0 for NULL. \<open>pack_ext\<close> relates a buffer being packed into to the buffer
  before: same length, same bytes from the position reached onwards.
\<close>

definition nalloc_of :: "xfer \<Rightarrow> nat" where
  "nalloc_of x = fst (snd x)"

definition queue_of :: "xfer \<Rightarrow> message list" where
  "queue_of x = queue (snd (snd x))"

definition wire_ok :: "xfer \<Rightarrow> bool" where
  "wire_ok x \<longleftrightarrow> length (deref (fst x)) = nalloc_of x"

definition pack_ext :: "byte list \<Rightarrow> byte list \<times> nat \<Rightarrow> bool" where
  "pack_ext buf0 = (\<lambda>(b, p). length b = length buf0 \<and> drop p b = drop p buf0)"

text \<open>
  \<open>sent_cap x x'\<close>: the state <x'> is well formed, has the capacity of <x>, and its queue
  is that of <x> followed by messages that all have that capacity as their length.
  \<open>grows x x'\<close>: the state <x'> is well formed and its capacity is at least that of <x>.
  \<open>envelope_wire\<close> is the envelope of a collection: the three counters, 8 bytes each.
\<close>

definition sent_cap :: "xfer \<Rightarrow> xfer \<Rightarrow> bool" where
  "sent_cap x x' \<longleftrightarrow>
     wire_ok x' \<and> nalloc_of x' = nalloc_of x
     \<and> (\<exists>ms. queue_of x' = queue_of x @ ms
            \<and> list_all (\<lambda>m. length (msg_data m) = nalloc_of x) ms)"

definition grows :: "xfer \<Rightarrow> xfer \<Rightarrow> bool" where
  "grows x x' \<longleftrightarrow> wire_ok x' \<and> nalloc_of x \<le> nalloc_of x'"

definition envelope_wire :: "P7_TOPHITS \<Rightarrow> byte list" where
  "envelope_wire th =
     word_bytes 8 (th_N th) @ word_bytes 8 (th_nreported th) @ word_bytes 8 (th_nincluded th)"


definition world_of :: "xfer \<Rightarrow> world" where
  "world_of x = snd (snd x)"

definition pinned_view :: "int \<Rightarrow> int \<Rightarrow> MPI_Comm \<Rightarrow> world \<Rightarrow> world" where
  "pinned_view source tag comm w = w\<lparr>queue := filter (msg_matches source tag comm) (queue w)\<rparr>"

definition view_xfer :: "int \<Rightarrow> int \<Rightarrow> MPI_Comm \<Rightarrow> 'a \<times> xfer \<Rightarrow> 'a \<times> xfer" where
  "view_xfer source tag comm = (\<lambda>(r, buf, nalloc, w). (r, buf, nalloc, pinned_view source tag comm w))"

text \<open>Records and a world for the concrete instances.\<close>

definition empty_display :: P7_ALIDISPLAY where
  "empty_display =
     \<lparr>rfline = None, mmline = None, csline = None, model = None, mline = None, aseq = None,
      ppline = None, ad_N = 0, hmmname = None, hmmacc = None, hmmdesc = None, hmmfrom = 0,
      hmmto = 0, ad_M = 0, sqname = None, sqacc = None, sqdesc = None, sqfrom = 0,
      sqto = 0, ad_L = 0, memsize = 0, mem = []\<rparr>"

definition empty_dcl :: P7_DOMAIN where
  "empty_dcl =
     \<lparr>ienv = 0, jenv = 0, iali = 0, jali = 0, envsc = 0, domcorrection = 0, dombias = 0,
      oasc = 0, bitscore = 0, dcl_lnP = 0, is_reported = 0, is_included = 0,
      ad = empty_display\<rparr>"

text \<open>A display with the pool \<^verbatim>\<open>"AC\0GT\0"\<close>: <model> at offset 0, <aseq> at offset 3.\<close>

definition example_display :: P7_ALIDISPLAY where
  "example_display =
     empty_display\<lparr>model := Some 0, aseq := Some 3, ad_N := 2, hmmfrom := 1, hmmto := 2,
       ad_M := 7, sqfrom := 10, sqto := 11, ad_L := 400, memsize := 6,
       mem := [65, 67, 0, 71, 84, 0]\<rparr>"

definition example_dcl :: P7_DOMAIN where
  "example_dcl =
     empty_dcl\<lparr>ienv := 10, jenv := 11, iali := 10, jali := 11, is_reported := 1,
       is_included := 1, ad := example_display\<rparr>"

definition example_hit :: P7_HIT where
  "example_hit = fresh_hit\<lparr>name := Some [72, 49], desc := Some [], nregions := 1, flags := 3\<rparr>"

definition empty_th :: P7_TOPHITS where
  "empty_th = \<lparr>unsrt = [], th_nreported = 5, th_nincluded = 3\<rparr>"

definition two_hits_th :: P7_TOPHITS where
  "two_hits_th = \<lparr>unsrt = [fresh_hit, example_hit], th_nreported = 2, th_nincluded = 2\<rparr>"

definition world0 :: world where
  "world0 = \<lparr>queue = [], faults = [], junk = \<lparr>MPI_SOURCE = 0, MPI_TAG = 0, st_count = 0\<rparr>\<rparr>"

text \<open>
  A world in which an envelope announcing one hit is pending for process 0, the probe
  succeeds and the receive after it fails.
\<close>

definition recv_fault_world :: world where
  "recv_fault_world =
     \<lparr>queue = [\<lparr>msg_source = 1, msg_dest = 0, msg_tag = 7,
                msg_data = word_bytes 8 (1 :: c_long) @ word_bytes 8 (1 :: c_long)
                           @ word_bytes 8 (1 :: c_long)\<rparr>],
      faults = [False, True],
      junk = \<lparr>MPI_SOURCE = 0, MPI_TAG = 0, st_count = 0\<rparr>\<rparr>"

text \<open>A world in which the first allocation succeeds and the second fails.\<close>

definition pool_fault_world :: world where
  "pool_fault_world =
     \<lparr>queue = [], faults = [False, True], junk = \<lparr>MPI_SOURCE = 0, MPI_TAG = 0, st_count = 0\<rparr>\<rparr>"







section \<open>Bytes and writes\<close>

lemma length_word_bytes [simp]: "length (word_bytes k w) = k"
  by (induction k arbitrary: w) auto

lemma bytes_word_bytes_take: "bytes_word (word_bytes k w) = take_bit (8 * k) w"
proof (induction k arbitrary: w)
  case 0
  show ?case by simp
next
  case (Suc k)
  have "ucast (ucast w :: byte) OR push_bit 8 (take_bit (8 * k) (drop_bit 8 w))
        = take_bit (8 * Suc k) w"
    by (rule bit_word_eqI) (auto simp add: bit_simps)
  then show ?case by (simp add: Suc)
qed

lemma bytes_word_bytes4 [simp]: "bytes_word (word_bytes 4 (w :: 32 word)) = w"
  by (simp add: bytes_word_bytes_take take_bit_word_eq_self)

lemma bytes_word_bytes8 [simp]: "bytes_word (word_bytes 8 (w :: 64 word)) = w"
  by (simp add: bytes_word_bytes_take take_bit_word_eq_self)

lemma mpi_try_simps [simp]: "mpi_try None f = Inl eslESYS" "mpi_try (Some x) f = f x"
  by (simp_all add: mpi_try_def)

lemma esl_try_simps [simp]: "esl_try (Inl e) f = Inl e" "esl_try (Inr x) f = f x"
  by (simp_all add: esl_try_def)

lemma mpi_tryw_simps [simp]:
  "mpi_tryw None f w = (Inl eslESYS, w)" "mpi_tryw (Some x) f w = f x w"
  by (simp_all add: mpi_tryw_def)

lemma esl_try_mpi_try_Inr: "esl_try (mpi_try m Inr) f = mpi_try m f"
  by (cases m) simp_all

lemma pack_try_simps [simp]:
  "pack_try buf None f = Inl (eslESYS, buf)" "pack_try buf (Some x) f = f x"
  by (simp_all add: pack_try_def)

lemma forget_buf_simps [simp]: "forget_buf (Inl (e, b)) = Inl e" "forget_buf (Inr x) = Inr x"
  by (simp_all add: forget_buf_def)

lemma forget_buf_Inr [simp]: "(forget_buf r = Inr x) = (r = Inr x)"
  by (cases r) auto

lemma forget_buf_Inl: "(forget_buf r = Inl e) = (\<exists>b. r = Inl (e, b))"
  by (cases r) auto

lemma forget_pack_try: "forget_buf (pack_try buf m f) = mpi_try m (\<lambda>x. forget_buf (f x))"
  by (cases m) simp_all

lemma forget_esl_try:
  "forget_buf (esl_try m f) = esl_try (forget_buf m) (\<lambda>x. forget_buf (f x))"
  by (cases m) auto

lemma forget_split:
  "forget_buf (case x of (a, b) \<Rightarrow> g a b) = (case x of (a, b) \<Rightarrow> forget_buf (g a b))"
  by (cases x) simp

lemma forget_if:
  "forget_buf (if c then x else y) = (if c then forget_buf x else forget_buf y)"
  by simp

lemma MPI_Pack_put:
  "0 \<le> c \<Longrightarrow> length obj = nat c * type_size ty \<Longrightarrow>
   MPI_Pack obj c ty buf n pos = put obj buf n pos"
  by (simp add: MPI_Pack_def put_def)

text \<open>Two writes in a row are one write of the concatenation.\<close>

lemma put_put:
  "mpi_try (put a buf n pos) (\<lambda>(buf, pos). mpi_try (put b buf n pos) f)
   = mpi_try (put (a @ b) buf n pos) f"
proof (cases "pos \<le> length buf")
  case True
  then show ?thesis by (auto simp: put_def min_def ac_simps)
next
  case False
  then show ?thesis by (auto simp: put_def ac_simps)
qed

text \<open>After a successful write the test \<^verbatim>\<open>*pos > n\<close> cannot fire.\<close>

lemma put_overflow_check_forget:
  "mpi_try (put a buf n pos)
     (\<lambda>(b, p). if n < p then forget_buf (Inl (eslEMEM, b)) else forget_buf (Inr (b, p)))
   = mpi_try (put a buf n pos) Inr"
  by (auto simp: put_def)

lemma put_Inr:
  assumes "mpi_try (put bs buf n pos) Inr = Inr (buf', pos')"
  shows "pos' = pos + length bs" and "pos' \<le> n"
    and "buf' = take pos buf @ bs @ drop (pos + length bs) buf"
  using assms by (auto simp: put_def split: if_splits)

lemma put_Inr_drop:
  assumes "mpi_try (put bs buf n pos) Inr = Inr (buf', pos')" "n \<le> length buf"
  shows "drop pos buf' = bs @ drop (pos + length bs) buf"
  using assms by (auto simp: put_def split: if_splits)

lemma sint_len: "k < 2 ^ 31 \<Longrightarrow> sint (word_of_nat k :: c_int) = int k"
  by (simp add: signed_of_nat signed_take_bit_int_eq_self)

lemma sint_c_int_less: "sint (x :: c_int) < 2147483648"
  using sint_lt [of x] by simp

section \<open>Optional strings\<close>

lemma PackOpt_put:
  "str_ok s \<Longrightarrow>
   forget_buf (esl_mpi_PackOpt s buf n pos) = mpi_try (put (opt_wire s) buf n pos) Inr"
proof (cases s)
  case None
  then show ?thesis
    by (simp add: esl_mpi_PackOpt_def opt_wire_def MPI_Pack_put forget_pack_try)
next
  case (Some str)
  assume "str_ok s"
  with Some show ?thesis
    by (simp add: esl_mpi_PackOpt_def opt_wire_def MPI_Pack_put str_ok_def sint_len put_put
        forget_pack_try forget_split)
qed

lemma PackOptSize_wire: "str_ok s \<Longrightarrow> esl_mpi_PackOptSize s = Inr (length (opt_wire s))"
  by (cases s) (simp_all add: esl_mpi_PackOptSize_def opt_wire_def MPI_Pack_size_def str_ok_def
      sint_len)

section \<open>A hit on the wire\<close>

text \<open>
  Packing a hit is one write of its wire image: the same outcome, and when it succeeds
  the same buffer and position.
\<close>

lemma hit_pack_forget:
  "hit_ok hit \<Longrightarrow>
   forget_buf (p7_hit_MPIPack hit buf n pos) = mpi_try (put (hit_wire hit) buf n pos) Inr"
  unfolding p7_hit_MPIPack_def hit_wire_def hit_ok_def
  by (simp add: MPI_Pack_put PackOpt_put esl_try_mpi_try_Inr put_overflow_check_forget put_put
      forget_pack_try forget_esl_try forget_split forget_if)

lemma hit_pack_put:
  "hit_ok hit \<Longrightarrow>
   (p7_hit_MPIPack hit buf n pos = Inr r) = (mpi_try (put (hit_wire hit) buf n pos) Inr = Inr r)"
  using hit_pack_forget [of hit buf n pos] forget_buf_Inr [of "p7_hit_MPIPack hit buf n pos" r]
  by simp

text \<open>For a hit the size computed is the number of bytes packed.\<close>

lemma hit_pack_size: "hit_ok hit \<Longrightarrow> p7_hit_MPIPackSize hit = Inr (length (hit_wire hit))"
  by (simp add: p7_hit_MPIPackSize_def hit_ok_def hit_wire_def MPI_Pack_size_def
      PackOptSize_wire)

lemma hit_unpack_wire:
  assumes "drop pos buf = hit_wire h @ rest" "hit_ok h" "pos + length (hit_wire h) \<le> n"
  shows "p7_hit_MPIUnpack buf n pos dest
         = Inr (h\<lparr>dcl := dcl dest\<rparr>, pos + length (hit_wire h))"
proof -
  have F: "\<And>k. drop (pos + k) buf = drop k (hit_wire h @ rest)"
    using assms(1) by (metis add.commute drop_drop)
  have F0: "drop pos buf = hit_wire h @ rest" by fact
  obtain s1 s2 s3 where s: "name h = s1" "acc h = s2" "desc h = s3" by simp
  have eq: "h\<lparr>dcl := dcl dest\<rparr> =
      dest\<lparr>sortkey := sortkey h, score := score h, pre_score := pre_score h,
           sum_score := sum_score h, lnP := lnP h, pre_lnP := pre_lnP h,
           sum_lnP := sum_lnP h, nexpected := nexpected h, nregions := nregions h,
           nclustered := nclustered h, noverlaps := noverlaps h,
           nenvelopes := nenvelopes h, ndom := ndom h, flags := flags h,
           nreported := nreported h, nincluded := nincluded h,
           best_domain := best_domain h, name := name h, acc := acc h, desc := desc h\<rparr>"
    by simp
  show ?thesis
    unfolding eq
    using assms(2,3) unfolding hit_ok_def s
    by (cases s1; cases s2; cases s3)
      (simp_all add: p7_hit_MPIUnpack_def esl_mpi_UnpackOpt_def MPI_Unpack_def F F0
        hit_wire_def s opt_wire_def str_ok_def sint_len add.assoc del: drop_drop)
qed

section \<open>A domain on the wire\<close>

lemma length_dcl_wire: "length (dcl_wire d) = 148 + length (mem (ad d))"
  by (simp add: dcl_wire_def)

lemma dcl_pack_forget:
  "sint (memsize (ad d)) = int (length (mem (ad d))) \<Longrightarrow>
   forget_buf (p7_dcl_MPIPack d buf n pos) = mpi_try (put (dcl_wire d) buf n pos) Inr"
  unfolding p7_dcl_MPIPack_def dcl_wire_def
  by (simp add: MPI_Pack_put put_overflow_check_forget put_put forget_pack_try forget_split
      forget_if)

lemma dcl_pack_put:
  "sint (memsize (ad d)) = int (length (mem (ad d))) \<Longrightarrow>
   (p7_dcl_MPIPack d buf n pos = Inr r) = (mpi_try (put (dcl_wire d) buf n pos) Inr = Inr r)"
  using dcl_pack_forget [of d buf n pos] forget_buf_Inr [of "p7_dcl_MPIPack d buf n pos" r]
  by simp

text \<open>
  For a domain the size computed is four bytes less than the bytes packed: seventeen
  \<^verbatim>\<open>int\<close> fields of the display are packed before the three \<^verbatim>\<open>long\<close>, sixteen are counted.
\<close>

lemma dcl_pack_size:
  "sint (memsize (ad d)) = int (length (mem (ad d))) \<Longrightarrow>
   p7_dcl_MPIPackSize d = Inr (144 + length (mem (ad d)))"
  by (simp add: p7_dcl_MPIPackSize_def MPI_Pack_size_def)

lemma offset_ptr_offset:
  assumes "line_ok a r" "sint (memsize a) = int (length (mem a))"
  shows "offset_ptr (ptr_offset r) = r"
proof (cases r)
  case None
  then show ?thesis by (simp add: offset_ptr_def ptr_offset_def)
next
  case (Some k)
  have "int (length (mem a)) < 2147483648"
    using sint_c_int_less [of "memsize a"] assms(2) by simp
  with assms(1) Some have k: "0 \<le> k" "k < 2147483648" by (simp_all add: line_ok_def)
  then have s: "sint (word_of_int k :: c_int) = k"
    by (simp add: signed_of_int signed_take_bit_int_eq_self)
  have "(word_of_int k :: c_int) \<noteq> - 1"
  proof
    assume "(word_of_int k :: c_int) = - 1"
    then have "sint (word_of_int k :: c_int) = - 1" by simp
    with s k show False by simp
  qed
  with s Some show ?thesis by (simp add: offset_ptr_def ptr_offset_def)
qed

lemma alloc_try_ok:
  "faults w = [] \<Longrightarrow> alloc_try k f w = (if k < 0 then (Inl eslEMEM, w) else f w)"
  by (simp add: alloc_try_def ESL_ALLOC_def next_fault_def)

text \<open>
  Unpacking the image of a well-formed domain: whatever the allocator does, the result
  is the domain, or <eslEMEM> when one of the two allocations fails.
\<close>

lemma dcl_unpack_wire_any:
  assumes "drop pos buf = dcl_wire d @ rest" "display_ok (ad d)"
    "pos + length (dcl_wire d) \<le> n"
  shows "p7_dcl_MPIUnpack buf n pos w =
     (case ESL_ALLOC sizeof_P7_ALIDISPLAY w of
        (False, w1) \<Rightarrow> (Inl eslEMEM, w1)
      | (True, w1) \<Rightarrow>
          (case ESL_ALLOC (sint (memsize (ad d))) w1 of
             (False, w2) \<Rightarrow> (Inl eslEMEM, w2)
           | (True, w2) \<Rightarrow> (Inr (d, pos + length (dcl_wire d)), w2)))"
proof -
  have F: "\<And>k. drop (pos + k) buf = drop k (dcl_wire d @ rest)"
    using assms(1) by (metis add.commute drop_drop)
  have F0: "drop pos buf = dcl_wire d @ rest" by fact
  have m: "sint (memsize (ad d)) = int (length (mem (ad d)))"
    using assms(2) by (simp add: display_ok_def)
  have l: "list_all (line_ok (ad d)) (ad_lines (ad d))"
    using assms(2) by (simp add: display_ok_def)
  have o: "\<And>r. line_ok (ad d) r \<Longrightarrow> offset_ptr (ptr_offset r) = r"
    using offset_ptr_offset m by blast
  have eq: "d =
      \<lparr>ienv = ienv d, jenv = jenv d, iali = iali d, jali = jali d, envsc = envsc d,
       domcorrection = domcorrection d, dombias = dombias d, oasc = oasc d,
       bitscore = bitscore d, dcl_lnP = dcl_lnP d, is_reported = is_reported d,
       is_included = is_included d,
       ad = \<lparr>rfline = rfline (ad d), mmline = mmline (ad d), csline = csline (ad d),
              model = model (ad d), mline = mline (ad d), aseq = aseq (ad d),
              ppline = ppline (ad d), ad_N = ad_N (ad d), hmmname = hmmname (ad d),
              hmmacc = hmmacc (ad d), hmmdesc = hmmdesc (ad d), hmmfrom = hmmfrom (ad d),
              hmmto = hmmto (ad d), ad_M = ad_M (ad d), sqname = sqname (ad d),
              sqacc = sqacc (ad d), sqdesc = sqdesc (ad d), sqfrom = sqfrom (ad d),
              sqto = sqto (ad d), ad_L = ad_L (ad d), memsize = memsize (ad d),
              mem = mem (ad d)\<rparr>\<rparr>"
    by simp
  show ?thesis
    apply (subst (3) eq)
    using assms(3) m l
    apply (simp add: p7_dcl_MPIUnpack_def MPI_Unpack_def F F0 dcl_wire_def alloc_try_def
        ad_lines_def o add.assoc del: drop_drop split: prod.splits bool.splits)
    done
qed

lemma dcl_unpack_wire:
  assumes "drop pos buf = dcl_wire d @ rest" "display_ok (ad d)"
    "pos + length (dcl_wire d) \<le> n" "faults w = []"
  shows "p7_dcl_MPIUnpack buf n pos w = (Inr (d, pos + length (dcl_wire d)), w)"
proof -
  have "0 \<le> sint (memsize (ad d))" using assms(2) by (simp add: display_ok_def)
  then show ?thesis
    using assms(4)
    by (simp add: dcl_unpack_wire_any [OF assms(1,2,3)] ESL_ALLOC_def next_fault_def
        sizeof_P7_ALIDISPLAY_def)
qed

section \<open>The concrete records\<close>

lemma hit_ok_example: "hit_ok example_hit"
  by (simp add: hit_ok_def example_hit_def fresh_hit_def str_ok_def)

lemma display_ok_example: "display_ok example_display"
  by (simp add: display_ok_def example_display_def empty_display_def ad_lines_def line_ok_def)

lemma display_ok_empty: "display_ok empty_display"
  by (simp add: display_ok_def empty_display_def ad_lines_def line_ok_def)

lemma put_fits:
  "pos + length bs \<le> n \<Longrightarrow> \<exists>b. mpi_try (put bs buf n pos) Inr = Inr (b, pos + length bs)"
  by (simp add: put_def)

lemma length_hit_wire_example: "length (hit_wire example_hit) = 106"
  by (simp add: hit_wire_def example_hit_def fresh_hit_def opt_wire_def)

section \<open>Round trip of a record\<close>

text \<open>
  Claim C1. A hit whose strings fit a C \<^verbatim>\<open>int\<close> length, packed by \<^verbatim>\<open>p7_hit_MPIPack\<close> into a
  buffer of <n> bytes, is unpacked by \<^verbatim>\<open>p7_hit_MPIUnpack\<close> from the same position to a hit
  with the same seventeen fields and the same three optional strings, present or absent
  as they were (the domain list is not part of the message: it stays that of the hit
  filled in). A domain whose display satisfies the invariant of the data model, packed
  by \<^verbatim>\<open>p7_dcl_MPIPack\<close>, is unpacked by \<^verbatim>\<open>p7_dcl_MPIUnpack\<close>, when no allocation fails, to the
  same domain: the twelve fields, every field of the display, each of the thirteen
  references present at the same offset or absent as before, and the same pool.
  Whatever the allocator does, unpacking returns this domain or fails with <eslEMEM>.
  The positions reached by the two directions agree. Displays with an empty pool and
  hits without domains are included.
\<close>

theorem pack_unpack_roundtrip:
  "(hit_ok hit \<and> n \<le> length buf \<and> p7_hit_MPIPack hit buf n pos = Inr (buf', pos')
      \<and> pos' \<le> n'
      \<longrightarrow> p7_hit_MPIUnpack buf' n' pos dest = Inr (hit\<lparr>dcl := dcl dest\<rparr>, pos'))
   \<and> (display_ok (ad d) \<and> m \<le> length bufd
        \<and> p7_dcl_MPIPack d bufd m posd = Inr (bufd', posd') \<and> posd' \<le> m'
      \<longrightarrow> (faults w = [] \<longrightarrow> p7_dcl_MPIUnpack bufd' m' posd w = (Inr (d, posd'), w))
        \<and> (\<forall>r w'. p7_dcl_MPIUnpack bufd' m' posd w = (Inr r, w') \<longrightarrow> r = (d, posd'))
        \<and> (\<forall>e w'. p7_dcl_MPIUnpack bufd' m' posd w = (Inl e, w') \<longrightarrow> e = eslEMEM))"
  (is "(?H \<longrightarrow> ?HC) \<and> (?D \<longrightarrow> ?D1 \<and> ?D2 \<and> ?D3)")
proof (rule conjI)
  show "?H \<longrightarrow> ?HC"
  proof
    assume a: ?H
    then have "hit_ok hit" and "p7_hit_MPIPack hit buf n pos = Inr (buf', pos')" by simp_all
    then have p: "mpi_try (put (hit_wire hit) buf n pos) Inr = Inr (buf', pos')"
      using hit_pack_put [of hit buf n pos "(buf', pos')"] by simp
    have "drop pos buf' = hit_wire hit @ drop (pos + length (hit_wire hit)) buf"
      using put_Inr_drop [OF p] a by simp
    moreover have "pos' = pos + length (hit_wire hit)" by (rule put_Inr(1) [OF p])
    ultimately show ?HC
      using a hit_unpack_wire [of pos buf' hit _ n' dest] by simp
  qed
  show "?D \<longrightarrow> ?D1 \<and> ?D2 \<and> ?D3"
  proof
    assume a: ?D
    then have "sint (memsize (ad d)) = int (length (mem (ad d)))"
      and "p7_dcl_MPIPack d bufd m posd = Inr (bufd', posd')" by (simp_all add: display_ok_def)
    then have p: "mpi_try (put (dcl_wire d) bufd m posd) Inr = Inr (bufd', posd')"
      using dcl_pack_put [of d bufd m posd "(bufd', posd')"] by simp
    have dr: "drop posd bufd' = dcl_wire d @ drop (posd + length (dcl_wire d)) bufd"
      using put_Inr_drop [OF p] a by simp
    have ps: "posd' = posd + length (dcl_wire d)" by (rule put_Inr(1) [OF p])
    have le: "posd + length (dcl_wire d) \<le> m'" using a ps by simp
    have ok: "display_ok (ad d)" using a by simp
    obtain a1 w1 where a1: "ESL_ALLOC sizeof_P7_ALIDISPLAY w = (a1, w1)"
      by (cases "ESL_ALLOC sizeof_P7_ALIDISPLAY w")
    obtain a2 w2 where a2: "ESL_ALLOC (sint (memsize (ad d))) w1 = (a2, w2)"
      by (cases "ESL_ALLOC (sint (memsize (ad d))) w1")
    have any: "p7_dcl_MPIUnpack bufd' m' posd w
        = (if \<not> a1 then (Inl eslEMEM, w1) else if \<not> a2 then (Inl eslEMEM, w2)
           else (Inr (d, posd'), w2))"
      by (simp add: dcl_unpack_wire_any [OF dr ok le, of w] a1 a2 ps)
    have 1: ?D1 using dcl_unpack_wire [OF dr ok le, of w] ps by simp
    have 2: ?D2 by (simp add: any)
    have 3: ?D3 by (simp add: any)
    from 1 2 3 show "?D1 \<and> ?D2 \<and> ?D3" by (intro conjI)
  qed
qed

theorem pack_unpack_roundtrip_witness:
  "hit_ok example_hit \<and> display_ok (ad example_dcl) \<and> faults world0 = []
   \<and> (\<exists>b p. p7_hit_MPIPack example_hit (replicate 128 0) 128 0 = Inr (b, p)
         \<and> p7_hit_MPIUnpack b 128 0 fresh_hit = Inr (example_hit, p))
   \<and> (\<exists>b p. p7_dcl_MPIPack example_dcl (replicate 256 0) 256 0 = Inr (b, p)
         \<and> p7_dcl_MPIUnpack b 256 0 world0 = (Inr (example_dcl, p), world0))"
proof -
  have h: "hit_ok example_hit" by (rule hit_ok_example)
  have d: "display_ok (ad example_dcl)"
    by (simp add: example_dcl_def empty_dcl_def display_ok_example)
  have f: "faults world0 = []" by (simp add: world0_def)
  obtain b where b: "p7_hit_MPIPack example_hit (replicate 128 0) 128 0 = Inr (b, 106)"
    using put_fits [of 0 "hit_wire example_hit" 128 "replicate 128 0"]
    by (auto simp: hit_pack_put h length_hit_wire_example)
  obtain c where c: "p7_dcl_MPIPack example_dcl (replicate 256 0) 256 0 = Inr (c, 154)"
    using put_fits [of 0 "dcl_wire example_dcl" 256 "replicate 256 0"] d
    by (auto simp: dcl_pack_put display_ok_def length_dcl_wire example_dcl_def empty_dcl_def
        example_display_def empty_display_def)
  have e: "example_hit\<lparr>dcl := dcl fresh_hit\<rparr> = example_hit"
    by (simp add: example_hit_def fresh_hit_def)
  note t = pack_unpack_roundtrip [of example_hit 128 "replicate 128 0" 0 b 106 128 fresh_hit
      example_dcl 256 "replicate 256 0" 0 c 154 256 world0]
  have ph: "hit_ok example_hit \<and> 128 \<le> length (replicate 128 (0 :: byte))
      \<and> p7_hit_MPIPack example_hit (replicate 128 0) 128 0 = Inr (b, 106) \<and> (106 :: nat) \<le> 128"
    using h b by simp
  have pd: "display_ok (ad example_dcl) \<and> 256 \<le> length (replicate 256 (0 :: byte))
      \<and> p7_dcl_MPIPack example_dcl (replicate 256 0) 256 0 = Inr (c, 154) \<and> (154 :: nat) \<le> 256"
    using d c by simp
  from t [THEN conjunct1, THEN mp, OF ph] e
  have 1: "p7_hit_MPIUnpack b 128 0 fresh_hit = Inr (example_hit, 106)" by simp
  from t [THEN conjunct2, THEN mp, OF pd, THEN conjunct1, THEN mp, OF f]
  have 2: "p7_dcl_MPIUnpack c 256 0 world0 = (Inr (example_dcl, 154), world0)" .
  from h d f b c 1 2 show ?thesis by blast
qed

section \<open>Size computed and bytes packed\<close>

text \<open>
  Claim C2. The claim asks that a record packs to at most the size its PackSize
  computes. For a hit the two are equal (lemmas \<open>hit_pack_size\<close>, \<open>hit_pack_put\<close>). For a
  domain they are not: the domain with an empty display packs to 148 bytes where there
  is room, \<^verbatim>\<open>p7_dcl_MPIPackSize\<close> returns 144 for it, and packing it into a buffer of exactly
  144 bytes fails with <eslESYS> at the field <memsize>, the 144 bytes before it written.
\<close>

theorem dcl_pack_exceeds_pack_size:
  "p7_dcl_MPIPackSize empty_dcl = Inr 144
   \<and> (\<exists>b. p7_dcl_MPIPack empty_dcl (replicate 148 0) 148 0 = Inr (b, 148))
   \<and> p7_dcl_MPIPack empty_dcl (replicate 144 0) 144 0
       = Inl (eslESYS, take 144 (dcl_wire empty_dcl))"
proof -
  have m: "sint (memsize (ad empty_dcl)) = int (length (mem (ad empty_dcl)))"
    by (simp add: empty_dcl_def empty_display_def)
  have l: "length (dcl_wire empty_dcl) = 148"
    by (simp add: length_dcl_wire empty_dcl_def empty_display_def)
  have 1: "p7_dcl_MPIPackSize empty_dcl = Inr 144"
    using dcl_pack_size [OF m] by (simp add: empty_dcl_def empty_display_def)
  have 2: "\<exists>b. p7_dcl_MPIPack empty_dcl (replicate 148 0) 148 0 = Inr (b, 148)"
    using put_fits [of 0 "dcl_wire empty_dcl" 148 "replicate 148 0"]
    by (simp add: dcl_pack_put [OF m] l)
  have 3: "p7_dcl_MPIPack empty_dcl (replicate 144 0) 144 0
      = Inl (eslESYS, take 144 (dcl_wire empty_dcl))"
    by code_simp
  from 1 2 3 show ?thesis by blast
qed

section \<open>The references of an unpacked display\<close>

lemma alloc_try_Inr:
  "alloc_try k f w = (Inr r, w') \<Longrightarrow> \<exists>w1. f w1 = (Inr r, w')"
  by (auto simp: alloc_try_def split: prod.splits bool.splits)

lemma mpi_tryw_unpack_Inr:
  "mpi_tryw (MPI_Unpack buf n pos c ty) f w = (Inr r, w') \<Longrightarrow>
   f (take (nat c * type_size ty) (drop pos buf), pos + nat c * type_size ty) w = (Inr r, w')"
  by (auto simp: mpi_tryw_def MPI_Unpack_def split: if_splits)

lemma dcl_unpack_lines:
  assumes "p7_dcl_MPIUnpack buf n pos w = (Inr (d', pos'), w')"
  shows "ad_lines (ad d') = map (\<lambda>k. offset_ptr (wire_int buf k)) (line_fields pos)
     \<and> memsize (ad d') = wire_int buf (pos + 144)
     \<and> mem (ad d') = take (nat (sint (wire_int buf (pos + 144)))) (drop (pos + 148) buf)"
  using assms unfolding p7_dcl_MPIUnpack_def
  apply -
  apply (drule alloc_try_Inr, elim exE)
  apply (drule mpi_tryw_unpack_Inr, simp only: split_conv)+
  apply (drule alloc_try_Inr, elim exE)
  apply (drule mpi_tryw_unpack_Inr, simp only: split_conv)
  apply (auto simp: ad_lines_def line_fields_def wire_int_def add.commute)
  done


lemma dcl_wire_line_fields:
  assumes "drop pos buf = dcl_wire d @ rest"
  shows "map (wire_int buf) (line_fields pos) = map ptr_offset (ad_lines (ad d))"
proof -
  have F: "\<And>k. drop (pos + k) buf = drop k (dcl_wire d @ rest)"
    using assms(1) by (metis add.commute drop_drop)
  show ?thesis
    by (simp add: wire_int_def line_fields_def ad_lines_def F dcl_wire_def del: drop_drop)
qed

lemma offset_ptr_None: "offset_ptr x = None \<longleftrightarrow> x = - 1"
  by (simp add: offset_ptr_def)


text \<open>
  Claim C4. First, for any buffer from which \<^verbatim>\<open>p7_dcl_MPIUnpack\<close> returns a domain: each
  of the thirteen references of its display is absent exactly when the offset field
  stored for it is -1, and is otherwise the pool start plus the stored offset; the pool
  is the <memsize> bytes that follow the fixed fields. Second, for a domain whose
  display satisfies the invariant of the data model and that \<^verbatim>\<open>p7_dcl_MPIPack\<close> packed:
  the offset fields on the wire are the sentinel for the absent references and the
  offsets of the present ones, unpacking succeeds when no allocation fails, the
  references come back as they were over a pool with the same bytes, so each line reads
  the bytes of the original line, and every reference present points inside the new
  pool.
\<close>

theorem unpack_line_references:
  "(p7_dcl_MPIUnpack buf n pos w = (Inr (d', pos'), w')
      \<longrightarrow> ad_lines (ad d')
            = map (\<lambda>k. if wire_int buf k = - 1 then None else Some (sint (wire_int buf k)))
                (line_fields pos)
          \<and> mem (ad d') = take (nat (sint (wire_int buf (pos + 144)))) (drop (pos + 148) buf))
   \<and> (display_ok (ad d) \<and> m \<le> length bufd
        \<and> p7_dcl_MPIPack d bufd m posd = Inr (bufd', posd') \<and> faults v = []
      \<longrightarrow> (\<exists>e. p7_dcl_MPIUnpack bufd' m posd v = (Inr (e, posd'), v)
             \<and> map (wire_int bufd') (line_fields posd) = map ptr_offset (ad_lines (ad d))
             \<and> ad_lines (ad e) = ad_lines (ad d)
             \<and> mem (ad e) = mem (ad d)
             \<and> list_all (line_ok (ad e)) (ad_lines (ad e))))"
proof (intro conjI impI)
  assume "p7_dcl_MPIUnpack buf n pos w = (Inr (d', pos'), w')"
  from dcl_unpack_lines [OF this]
  show "ad_lines (ad d')
            = map (\<lambda>k. if wire_int buf k = - 1 then None else Some (sint (wire_int buf k)))
                (line_fields pos)"
    and "mem (ad d') = take (nat (sint (wire_int buf (pos + 144)))) (drop (pos + 148) buf)"
    by (simp_all add: offset_ptr_def)
next
  assume a: "display_ok (ad d) \<and> m \<le> length bufd
        \<and> p7_dcl_MPIPack d bufd m posd = Inr (bufd', posd') \<and> faults v = []"
  then have "sint (memsize (ad d)) = int (length (mem (ad d)))"
    and "p7_dcl_MPIPack d bufd m posd = Inr (bufd', posd')" by (simp_all add: display_ok_def)
  then have p: "mpi_try (put (dcl_wire d) bufd m posd) Inr = Inr (bufd', posd')"
    using dcl_pack_put [of d bufd m posd "(bufd', posd')"] by simp
  have dr: "drop posd bufd' = dcl_wire d @ drop (posd + length (dcl_wire d)) bufd"
    using put_Inr_drop [OF p] a by simp
  have ps: "posd' = posd + length (dcl_wire d)" by (rule put_Inr(1) [OF p])
  have le: "posd' \<le> m" by (rule put_Inr(2) [OF p])
  have u: "p7_dcl_MPIUnpack bufd' m posd v = (Inr (d, posd'), v)"
    using a dcl_unpack_wire [OF dr, of m v] ps le by simp
  have "map (wire_int bufd') (line_fields posd) = map ptr_offset (ad_lines (ad d))"
    by (rule dcl_wire_line_fields [OF dr])
  moreover have "list_all (line_ok (ad d)) (ad_lines (ad d))"
    using a by (simp add: display_ok_def)
  ultimately show "\<exists>e. p7_dcl_MPIUnpack bufd' m posd v = (Inr (e, posd'), v)
             \<and> map (wire_int bufd') (line_fields posd) = map ptr_offset (ad_lines (ad d))
             \<and> ad_lines (ad e) = ad_lines (ad d)
             \<and> mem (ad e) = mem (ad d)
             \<and> list_all (line_ok (ad e)) (ad_lines (ad e))"
    using u by blast
qed

theorem unpack_line_references_witness:
  "display_ok (ad example_dcl) \<and> faults world0 = []
   \<and> (\<exists>b e. p7_dcl_MPIPack example_dcl (replicate 256 0) 256 0 = Inr (b, 154)
         \<and> p7_dcl_MPIUnpack b 256 0 world0 = (Inr (e, 154), world0)
         \<and> map (wire_int b) (line_fields 0) = [- 1, - 1, - 1, 0, - 1, 3, - 1, - 1, - 1, - 1, - 1, - 1, - 1]
         \<and> ad_lines (ad e)
            = [None, None, None, Some 0, None, Some 3, None, None, None, None, None, None, None]
         \<and> mem (ad e) = [65, 67, 0, 71, 84, 0])"
proof -
  have d: "display_ok (ad example_dcl)"
    by (simp add: example_dcl_def empty_dcl_def display_ok_example)
  have f: "faults world0 = []" by (simp add: world0_def)
  obtain c where c: "p7_dcl_MPIPack example_dcl (replicate 256 0) 256 0 = Inr (c, 154)"
    using put_fits [of 0 "dcl_wire example_dcl" 256 "replicate 256 0"] d
    by (auto simp: dcl_pack_put display_ok_def length_dcl_wire example_dcl_def empty_dcl_def
        example_display_def empty_display_def)
  have l: "ad_lines (ad example_dcl)
      = [None, None, None, Some 0, None, Some 3, None, None, None, None, None, None, None]"
    by (simp add: ad_lines_def example_dcl_def empty_dcl_def example_display_def
        empty_display_def)
  have m: "mem (ad example_dcl) = [65, 67, 0, 71, 84, 0]"
    by (simp add: example_dcl_def empty_dcl_def example_display_def empty_display_def)
  from unpack_line_references [THEN conjunct2, of example_dcl 256 "replicate 256 0" 0 c 154 world0]
    d f c
  obtain e where "p7_dcl_MPIUnpack c 256 0 world0 = (Inr (e, 154), world0)"
    "map (wire_int c) (line_fields 0) = map ptr_offset (ad_lines (ad example_dcl))"
    "ad_lines (ad e) = ad_lines (ad example_dcl)" "mem (ad e) = mem (ad example_dcl)"
    by auto
  with c d f l m show ?thesis by (auto simp: ptr_offset_def)
qed

section \<open>A display with an empty pool\<close>

lemma line_ok_empty_pool: "mem a = [] \<Longrightarrow> line_ok a r \<Longrightarrow> r = None"
  by (cases r) (auto simp add: line_ok_def)

lemma lines_None_of_empty_pool:
  assumes "display_ok a" "memsize a = 0"
  shows "list_all (\<lambda>r. r = None) (ad_lines a) \<and> mem a = []"
proof -
  from assms have m: "mem a = []" by (simp add: display_ok_def)
  from assms have "list_all (line_ok a) (ad_lines a)" by (simp add: display_ok_def)
  then have "list_all (\<lambda>r. r = None) (ad_lines a)"
    by (rule list.pred_mono_strong) (rule line_ok_empty_pool [OF m])
  with m show ?thesis by simp
qed


text \<open>
  Claim C9. A domain whose display has <memsize> 0 (and satisfies the invariant, so that
  its pool is empty and none of its thirteen references is present) is packed with
  success wherever 148 bytes are free. Unpacking the bytes packed makes two allocations
  in every world, that of the display and then that of the pool, of size 0: when one of
  them fails the result is <eslEMEM>, otherwise it is the domain that was packed, with
  its empty pool and its thirteen absent references. With an allocator that does not
  fail, unpacking succeeds.
\<close>

theorem zero_pool_display:
  "display_ok (ad d) \<and> memsize (ad d) = 0 \<and> pos + 148 \<le> n \<and> n \<le> length buf
   \<longrightarrow> (\<exists>buf'. p7_dcl_MPIPack d buf n pos = Inr (buf', pos + 148)
          \<and> p7_dcl_MPIUnpack buf' n pos w =
              (case ESL_ALLOC sizeof_P7_ALIDISPLAY w of
                 (False, w1) \<Rightarrow> (Inl eslEMEM, w1)
               | (True, w1) \<Rightarrow>
                   (case ESL_ALLOC 0 w1 of
                      (False, w2) \<Rightarrow> (Inl eslEMEM, w2)
                    | (True, w2) \<Rightarrow> (Inr (d, pos + 148), w2)))
          \<and> (faults w = [] \<longrightarrow> p7_dcl_MPIUnpack buf' n pos w = (Inr (d, pos + 148), w)))
       \<and> mem (ad d) = [] \<and> list_all (\<lambda>r. r = None) (ad_lines (ad d))"
  (is "?A \<longrightarrow> (\<exists>buf'. ?P buf' \<and> ?U buf' \<and> ?F buf') \<and> ?M \<and> ?L")
proof
  assume a: ?A
  then have z: "list_all (\<lambda>r. r = None) (ad_lines (ad d))" "mem (ad d) = []"
    using lines_None_of_empty_pool [of "ad d"] by simp_all
  have ms: "sint (memsize (ad d)) = int (length (mem (ad d)))" using a z by simp
  have l: "length (dcl_wire d) = 148" using z by (simp add: length_dcl_wire)
  obtain b where p: "mpi_try (put (dcl_wire d) buf n pos) Inr = Inr (b, pos + 148)"
    using put_fits [of pos "dcl_wire d" n buf] a l by auto
  then have pk: "?P b"
    by (simp add: dcl_pack_put [OF ms])
  have dr: "drop pos b = dcl_wire d @ drop (pos + length (dcl_wire d)) buf"
    using put_Inr_drop [OF p] a by simp
  have ok: "display_ok (ad d)" using a by simp
  have le: "pos + length (dcl_wire d) \<le> n" using a l by simp
  have m0: "sint (memsize (ad d)) = 0" using a by simp
  have u: "?U b"
    by (rule dcl_unpack_wire_any [OF dr ok le, of w, unfolded l m0])
  have f: "?F b"
    using dcl_unpack_wire [OF dr ok le, of w] l by simp
  from pk u f have "\<exists>buf'. ?P buf' \<and> ?U buf' \<and> ?F buf'" by blast
  with z show "(\<exists>buf'. ?P buf' \<and> ?U buf' \<and> ?F buf') \<and> ?M \<and> ?L" by simp
qed

theorem zero_pool_display_witness:
  "display_ok (ad (example_dcl\<lparr>ad := empty_display\<rparr>))
   \<and> memsize (ad (example_dcl\<lparr>ad := empty_display\<rparr>)) = 0
   \<and> (\<exists>buf'. p7_dcl_MPIPack (example_dcl\<lparr>ad := empty_display\<rparr>) (replicate 148 0) 148 0
                = Inr (buf', 148)
          \<and> p7_dcl_MPIUnpack buf' 148 0 world0
              = (Inr (example_dcl\<lparr>ad := empty_display\<rparr>, 148), world0)
          \<and> p7_dcl_MPIUnpack buf' 148 0 pool_fault_world
              = (Inl eslEMEM, pool_fault_world\<lparr>faults := []\<rparr>))
   \<and> list_all (\<lambda>r. r = None) (ad_lines empty_display)"
proof -
  let ?d = "example_dcl\<lparr>ad := empty_display\<rparr>"
  have d: "display_ok (ad ?d)" by (simp add: display_ok_empty)
  have z: "memsize (ad ?d) = 0" by (simp add: empty_display_def)
  have h: "display_ok (ad ?d) \<and> memsize (ad ?d) = 0 \<and> 0 + 148 \<le> (148 :: nat)
      \<and> 148 \<le> length (replicate 148 (0 :: byte))"
    using d z by simp
  have a0: "ESL_ALLOC sizeof_P7_ALIDISPLAY world0 = (True, world0)"
    "ESL_ALLOC 0 world0 = (True, world0)"
    by (simp_all add: ESL_ALLOC_def next_fault_def world0_def sizeof_P7_ALIDISPLAY_def)
  have a1: "ESL_ALLOC sizeof_P7_ALIDISPLAY pool_fault_world
      = (True, pool_fault_world\<lparr>faults := [True]\<rparr>)"
    "ESL_ALLOC 0 (pool_fault_world\<lparr>faults := [True]\<rparr>)
      = (False, pool_fault_world\<lparr>faults := []\<rparr>)"
    by (simp_all add: ESL_ALLOC_def next_fault_def pool_fault_world_def sizeof_P7_ALIDISPLAY_def)
  from zero_pool_display [of ?d 0 148 "replicate 148 0" world0, THEN mp, OF h]
  obtain b where b: "p7_dcl_MPIPack ?d (replicate 148 0) 148 0 = Inr (b, 148)"
    and u0: "p7_dcl_MPIUnpack b 148 0 world0 = (Inr (?d, 148), world0)"
    and l: "list_all (\<lambda>r. r = None) (ad_lines empty_display)"
    by (auto simp: a0)
  from zero_pool_display [of ?d 0 148 "replicate 148 0" pool_fault_world, THEN mp, OF h] b
  have u1: "p7_dcl_MPIUnpack b 148 0 pool_fault_world
      = (Inl eslEMEM, pool_fault_world\<lparr>faults := []\<rparr>)"
    by (auto simp: a1)
  from d z b u0 u1 l show ?thesis by blast
qed

section \<open>What packing leaves of the buffer\<close>

lemma pack_step:
  assumes "pack_try buf (MPI_Pack obj c ty buf n pos) f = Inr r" "pack_ext buf0 (buf, pos)"
    "n \<le> length buf0"
  shows "\<exists>b p. pack_ext buf0 (b, p) \<and> p \<le> n \<and> f (b, p) = Inr r"
proof (cases "MPI_Pack obj c ty buf n pos")
  case None
  with assms(1) show ?thesis by simp
next
  case (Some x)
  obtain b p where x: "x = (b, p)" by (cases x)
  define k where "k = nat c * type_size ty"
  from Some x have ok: "k \<le> length obj" "pos + k \<le> n"
    and b: "b = take pos buf @ take k obj @ drop (pos + k) buf"
    and p: "p = pos + k"
    by (auto simp: MPI_Pack_def k_def split: if_splits)
  from assms(2) have l: "length buf = length buf0" and d: "drop pos buf = drop pos buf0"
    by (simp_all add: pack_ext_def)
  have "drop k (drop pos buf) = drop k (drop pos buf0)"
    using d by simp
  then have dd: "drop (pos + k) buf = drop (pos + k) buf0"
    by (simp add: add.commute)
  have "length b = length buf0" using ok assms(3) l by (auto simp add: b min_def)
  moreover have "drop p b = drop p buf0"
    using ok assms(3) l dd by (auto simp add: b p min_def)
  ultimately have "pack_ext buf0 (b, p)" by (simp add: pack_ext_def)
  moreover have "f (b, p) = Inr r" using assms(1) Some x by simp
  ultimately show ?thesis using ok p by blast
qed

lemma packopt_step:
  assumes "esl_try (esl_mpi_PackOpt s buf n pos) f = Inr r" "pack_ext buf0 (buf, pos)"
    "n \<le> length buf0"
  shows "\<exists>b p. pack_ext buf0 (b, p) \<and> p \<le> n \<and> f (b, p) = Inr r"
proof (cases "esl_mpi_PackOpt s buf n pos")
  case (Inl e)
  with assms(1) show ?thesis by simp
next
  case (Inr x)
  obtain b p where x: "x = (b, p)" by (cases x)
  have "\<exists>b' p'. pack_ext buf0 (b', p') \<and> p' \<le> n \<and> Inr (b', p') = (Inr (b, p) :: packed)"
  proof (cases s)
    case None
    with Inr x have "pack_try buf (MPI_Pack (word_bytes 4 (0 :: c_int)) 1 MPI_INT buf n pos) Inr = Inr (b, p)"
      by (simp add: esl_mpi_PackOpt_def)
    from pack_step [OF this assms(2,3)] show ?thesis .
  next
    case (Some str)
    with Inr x have 1: "pack_try buf (MPI_Pack (word_bytes 4 (1 :: c_int)) 1 MPI_INT buf n pos) (\<lambda>(buf, pos).
          pack_try buf (MPI_Pack (word_bytes 4 (word_of_nat (length str) :: c_int)) 1 MPI_INT buf n pos)
            (\<lambda>(buf, pos).
          pack_try buf (MPI_Pack str (sint (word_of_nat (length str) :: c_int)) MPI_CHAR buf n pos) Inr)) = Inr (b, p)"
      by (simp add: esl_mpi_PackOpt_def)
    from pack_step [OF 1 assms(2,3)] obtain b1 p1 where e1: "pack_ext buf0 (b1, p1)"
      and 2: "pack_try b1 (MPI_Pack (word_bytes 4 (word_of_nat (length str) :: c_int)) 1 MPI_INT b1 n p1)
            (\<lambda>(buf, pos).
          pack_try buf (MPI_Pack str (sint (word_of_nat (length str) :: c_int)) MPI_CHAR buf n pos) Inr) = Inr (b, p)"
      by auto
    from pack_step [OF 2 e1 assms(3)] obtain b2 p2 where e2: "pack_ext buf0 (b2, p2)"
      and 3: "pack_try b2 (MPI_Pack str (sint (word_of_nat (length str) :: c_int)) MPI_CHAR b2 n p2) Inr = Inr (b, p)"
      by auto
    from pack_step [OF 3 e2 assms(3)] show ?thesis .
  qed
  then have "pack_ext buf0 (b, p) \<and> p \<le> n" by auto
  moreover have "f (b, p) = Inr r" using assms(1) Inr x by simp
  ultimately show ?thesis by blast
qed

lemma overflow_check_Inr:
  "(if n < p then Inl (eslEMEM, b) else Inr (b, p)) = (Inr r :: packed) \<Longrightarrow> r = (b, p)"
  by (simp split: if_splits)

lemma dcl_pack_ext:
  assumes "p7_dcl_MPIPack d buf n pos = Inr r" "n \<le> length buf"
  shows "pack_ext buf r \<and> snd r \<le> n"
proof -
  have e: "pack_ext buf (buf, pos)" by (simp add: pack_ext_def)
  show ?thesis
    using assms(1) e assms(2) unfolding p7_dcl_MPIPack_def
    apply -
    apply (drule pack_step, assumption, assumption, elim exE conjE, simp only: split_conv)+
    apply (drule overflow_check_Inr)
    apply simp
    done
qed

lemma hit_pack_ext:
  assumes "p7_hit_MPIPack hit buf n pos = Inr r" "n \<le> length buf"
  shows "pack_ext buf r \<and> snd r \<le> n"
proof -
  have e: "pack_ext buf (buf, pos)" by (simp add: pack_ext_def)
  show ?thesis
    using assms(1) e assms(2) unfolding p7_hit_MPIPack_def
    apply -
    apply (drule pack_step, assumption, assumption, elim exE conjE, simp only: split_conv)+
    apply (drule packopt_step, assumption, assumption, elim exE conjE, simp only: split_conv)+
    apply (drule overflow_check_Inr)
    apply simp
    done
qed

text \<open>
  Whether it fails or not, a packing function leaves a buffer of the length it found.
\<close>

lemma keeps_len_pack_try:
  assumes "length buf = l" "n \<le> l" "\<And>b p. length b = l \<Longrightarrow> keeps_len l (f (b, p))"
  shows "keeps_len l (pack_try buf (MPI_Pack obj c ty buf n pos) f)"
proof (cases "MPI_Pack obj c ty buf n pos")
  case None
  then show ?thesis using assms(1) by (simp add: keeps_len_def)
next
  case (Some x)
  obtain b p where x: "x = (b, p)" by (cases x)
  define k where "k = nat c * type_size ty"
  from Some x have ok: "k \<le> length obj" "pos + k \<le> n"
    and b: "b = take pos buf @ take k obj @ drop (pos + k) buf"
    by (auto simp: MPI_Pack_def k_def split: if_splits)
  have "length b = l" using ok assms(1,2) by (auto simp add: b min_def)
  from assms(3) [OF this] show ?thesis using Some x by simp
qed

lemma keeps_len_esl_try:
  assumes "keeps_len l m" "\<And>b p. length b = l \<Longrightarrow> keeps_len l (f (b, p))"
  shows "keeps_len l (esl_try m f)"
  using assms by (cases m) (auto simp: keeps_len_def)

lemma keeps_len_Inr: "length b = l \<Longrightarrow> keeps_len l (Inr (b, p))"
  by (simp add: keeps_len_def)

lemma keeps_len_PackOpt:
  assumes "length buf = l" "n \<le> l"
  shows "keeps_len l (esl_mpi_PackOpt s buf n pos)"
proof (cases s)
  case None
  show ?thesis
    unfolding esl_mpi_PackOpt_def None option.case
    by (rule keeps_len_pack_try [OF assms]) (erule keeps_len_Inr)
next
  case (Some str)
  show ?thesis
    unfolding esl_mpi_PackOpt_def Some option.case
    apply (rule keeps_len_pack_try [OF assms], simp only: split_conv)
    apply (rule keeps_len_pack_try [OF _ assms(2)], assumption, simp only: split_conv)
    apply (rule keeps_len_pack_try [OF _ assms(2)], assumption)
    apply (erule keeps_len_Inr)
    done
qed

lemma keeps_len_check:
  "length b = l \<Longrightarrow> keeps_len l (if n < p then Inl (eslEMEM, b) else Inr (b, p))"
  by (simp add: keeps_len_def)

lemma dcl_pack_keeps_len:
  assumes "n \<le> length buf"
  shows "keeps_len (length buf) (p7_dcl_MPIPack d buf n pos)"
  unfolding p7_dcl_MPIPack_def
  apply (rule keeps_len_pack_try [OF refl assms], simp only: split_conv)
  apply (rule keeps_len_pack_try [OF _ assms], assumption, simp only: split_conv)+
  apply (erule keeps_len_check)
  done

lemma hit_pack_keeps_len:
  assumes "n \<le> length buf"
  shows "keeps_len (length buf) (p7_hit_MPIPack hit buf n pos)"
  unfolding p7_hit_MPIPack_def
  apply (rule keeps_len_pack_try [OF refl assms], simp only: split_conv)
  apply (rule keeps_len_pack_try [OF _ assms], assumption, simp only: split_conv)+
  apply (rule keeps_len_esl_try, rule keeps_len_PackOpt [OF _ assms], assumption,
      simp only: split_conv)+
  apply (erule keeps_len_check)
  done

lemma keeps_len_Inl: "keeps_len l r \<Longrightarrow> r = Inl (e, b) \<Longrightarrow> length b = l"
  by (simp add: keeps_len_def)

section \<open>Invariants of sending\<close>

lemma xfer_simps [simp]:
  "nalloc_of (buf, nalloc, w) = nalloc" "queue_of (buf, nalloc, w) = queue w"
  "wire_ok (buf, nalloc, w) \<longleftrightarrow> length (deref buf) = nalloc"
  by (simp_all add: nalloc_of_def queue_of_def wire_ok_def)

lemma deref_simps [simp]: "deref None = []" "deref (Some b) = b"
  by (simp_all add: deref_def)

lemma sent_cap_refl: "wire_ok x \<Longrightarrow> sent_cap x x"
  by (simp add: sent_cap_def)

lemma sent_cap_trans: "sent_cap x y \<Longrightarrow> sent_cap y z \<Longrightarrow> sent_cap x z"
  by (auto simp: sent_cap_def)

lemma grows_refl: "wire_ok x \<Longrightarrow> grows x x"
  by (simp add: grows_def)

lemma grows_trans: "grows x y \<Longrightarrow> grows y z \<Longrightarrow> grows x z"
  by (auto simp: grows_def)

lemma sent_cap_grows: "sent_cap x y \<Longrightarrow> grows x y"
  by (simp add: sent_cap_def grows_def)

lemma MPI_Send_cases:
  assumes "MPI_Send b n dest tag comm w = (rc, w')"
  shows "(rc \<noteq> 0 \<and> queue w' = queue w)
       \<or> (rc = 0 \<and> queue w' = queue w @ [\<lparr>msg_source = comm, msg_dest = dest, msg_tag = tag,
                   msg_data = take n b\<rparr>])"
  using assms by (auto simp: MPI_Send_def next_fault_def split: list.splits bool.splits)

lemma dcl_send_cap:
  assumes "wire_ok x"
  shows "sent_cap x (snd (p7_dcl_MPISend d dest tag comm x))"
proof -
  obtain buf nalloc w where x: "x = (buf, nalloc, w)" by (cases x)
  with assms have l: "length (deref buf) = nalloc" by simp
  show ?thesis
  proof (cases "p7_dcl_MPIPack d (deref buf) nalloc 0")
    case (Inl eb)
    obtain e b where eb: "eb = (e, b)" by (cases eb)
    have "keeps_len (length (deref buf)) (p7_dcl_MPIPack d (deref buf) nalloc 0)"
      using l by (intro dcl_pack_keeps_len) simp
    from keeps_len_Inl [OF this Inl [unfolded eb]] l have "length b = nalloc" by simp
    then show ?thesis
      using Inl eb x l by (cases buf) (simp_all add: p7_dcl_MPISend_def sent_cap_def)
  next
    case (Inr r)
    obtain b pos where r: "r = (b, pos)" by (cases r)
    from dcl_pack_ext [OF Inr] l r have lb: "length b = nalloc" by (simp add: pack_ext_def)
    obtain rc w' where s: "MPI_Send b nalloc dest tag comm w = (rc, w')"
      by (cases "MPI_Send b nalloc dest tag comm w")
    from MPI_Send_cases [OF s] lb show ?thesis
      using Inr r s x l by (auto simp: p7_dcl_MPISend_def sent_cap_def)
  qed
qed

lemma hit_send_loop_cap:
  "wire_ok x \<Longrightarrow> sent_cap x (snd (p7_hit_MPISend_loop ds dest tag comm x))"
proof (induction ds arbitrary: x)
  case Nil
  then show ?case by (simp add: sent_cap_refl)
next
  case (Cons d ds)
  obtain st x' where s: "p7_dcl_MPISend d dest tag comm x = (st, x')"
    by (cases "p7_dcl_MPISend d dest tag comm x")
  from dcl_send_cap [OF Cons.prems, of d dest tag comm] s have c: "sent_cap x x'" by simp
  then have "wire_ok x'" by (simp add: sent_cap_def)
  from Cons.IH [OF this] c show ?case
    using s by (auto intro: sent_cap_trans)
qed

lemma hit_send_cap:
  assumes "wire_ok x"
  shows "sent_cap x (snd (p7_hit_MPISend hit dest tag comm x))"
proof -
  obtain buf nalloc w where x: "x = (buf, nalloc, w)" by (cases x)
  with assms have l: "length (deref buf) = nalloc" by simp
  show ?thesis
  proof (cases "p7_hit_MPIPack hit (deref buf) nalloc 0")
    case (Inl eb)
    obtain e b where eb: "eb = (e, b)" by (cases eb)
    have "keeps_len (length (deref buf)) (p7_hit_MPIPack hit (deref buf) nalloc 0)"
      using l by (intro hit_pack_keeps_len) simp
    from keeps_len_Inl [OF this Inl [unfolded eb]] l have "length b = nalloc" by simp
    then show ?thesis
      using Inl eb x l by (cases buf) (simp_all add: p7_hit_MPISend_def sent_cap_def)
  next
    case (Inr r)
    obtain b pos where r: "r = (b, pos)" by (cases r)
    from hit_pack_ext [OF Inr] l r have lb: "length b = nalloc" by (simp add: pack_ext_def)
    obtain rc w' where s: "MPI_Send b nalloc dest tag comm w = (rc, w')"
      by (cases "MPI_Send b nalloc dest tag comm w")
    from MPI_Send_cases [OF s] lb have c: "sent_cap x (Some b, nalloc, w')"
      using x l by (auto simp: sent_cap_def)
    then have "wire_ok (Some b, nalloc, w')" by (simp add: sent_cap_def)
    from hit_send_loop_cap [OF this] c
    have "sent_cap x (snd (p7_hit_MPISend_loop (take (nat (sint (ndom hit))) (dcl hit)) dest tag comm (Some b, nalloc, w')))"
      by (rule sent_cap_trans [rotated])
    with c show ?thesis
      using Inr r s x by (simp add: p7_hit_MPISend_def)
  qed
qed

lemma tophits_send_loop_cap:
  "wire_ok x \<Longrightarrow> sent_cap x (snd (p7_tophits_MPISend_loop hits dest tag comm x))"
proof (induction hits arbitrary: x)
  case Nil
  then show ?case by (simp add: sent_cap_refl)
next
  case (Cons h hs)
  obtain st x' where s: "p7_hit_MPISend h dest tag comm x = (st, x')"
    by (cases "p7_hit_MPISend h dest tag comm x")
  from hit_send_cap [OF Cons.prems, of h dest tag comm] s have c: "sent_cap x x'" by simp
  then have "wire_ok x'" by (simp add: sent_cap_def)
  from Cons.IH [OF this] c show ?case
    using s by (auto intro: sent_cap_trans)
qed

lemma buf_ensure_grows:
  assumes "wire_ok x" "buf_ensure n x = (st, x')"
  shows "grows x x'" and "st = eslOK \<Longrightarrow> n \<le> nalloc_of x' \<and> fst x' \<noteq> None"
    and "st \<noteq> eslOK \<Longrightarrow> fst x' = fst x"
  using assms
  by (cases x; auto simp: buf_ensure_def ESL_RALLOC_def next_fault_def grows_def
      split: if_splits list.splits bool.splits prod.splits option.splits)+

lemma wire_okI: "length (deref (fst x)) = nalloc_of x \<Longrightarrow> wire_ok x"
  by (simp add: wire_ok_def)

lemma envelope_keeps_len:
  assumes "n \<le> length buf"
  shows "keeps_len (length buf)
     (pack_try buf (MPI_Pack o1 1 MPI_LONG_LONG_INT buf n 0) (\<lambda>(b, pos).
      pack_try b (MPI_Pack o2 1 MPI_LONG_LONG_INT b n pos) (\<lambda>(b, pos).
      pack_try b (MPI_Pack o3 1 MPI_LONG_LONG_INT b n pos) Inr)))"
  apply (rule keeps_len_pack_try [OF refl assms], simp only: split_conv)
  apply (rule keeps_len_pack_try [OF _ assms], assumption, simp only: split_conv)
  apply (rule keeps_len_pack_try [OF _ assms], assumption)
  apply (erule keeps_len_Inr)
  done

lemma envelope_pack_ext:
  assumes "pack_try buf (MPI_Pack o1 1 MPI_LONG_LONG_INT buf n 0) (\<lambda>(b, pos).
           pack_try b (MPI_Pack o2 1 MPI_LONG_LONG_INT b n pos) (\<lambda>(b, pos).
           pack_try b (MPI_Pack o3 1 MPI_LONG_LONG_INT b n pos) Inr)) = Inr r"
    "n \<le> length buf"
  shows "length (fst r) = length buf"
proof -
  have e: "pack_ext buf (buf, 0)" by (simp add: pack_ext_def)
  show ?thesis
    using assms(1) e assms(2)
    apply -
    apply (drule pack_step, assumption, assumption, elim exE conjE, simp only: split_conv)+
    apply (drule pack_step, assumption, assumption, elim exE conjE)
    apply (auto simp: pack_ext_def)
    done
qed

lemma tophits_send_grows:
  assumes "wire_ok x"
  shows "grows x (snd (p7_tophits_MPISend th dest tag comm x))"
proof -
  obtain buf nalloc w where x: "x = (buf, nalloc, w)" by (cases x)
  show ?thesis
  proof (cases "p7_tophits_MPISend_size th")
    case (Inl e)
    then show ?thesis using assms x by (simp add: p7_tophits_MPISend_def grows_def)
  next
    case (Inr n)
    obtain st buf1 nalloc1 w1 where e: "buf_ensure n (buf, nalloc, w) = (st, buf1, nalloc1, w1)"
      by (cases "buf_ensure n (buf, nalloc, w)") auto
    from buf_ensure_grows [OF assms [unfolded x] e]
    have g: "grows x (buf1, nalloc1, w1)" and ok: "st = eslOK \<Longrightarrow> n \<le> nalloc1"
      using x by simp_all
    then have l1: "length (deref buf1) = nalloc1" by (simp add: grows_def)
    show ?thesis
    proof (cases "st = eslOK")
      case False
      then show ?thesis using Inr e g x by (simp add: p7_tophits_MPISend_def)
    next
      case True
      let ?pk = "pack_try (deref buf1)
                     (MPI_Pack (word_bytes 8 (th_N th)) 1 MPI_LONG_LONG_INT (deref buf1) n 0)
                     (\<lambda>(b, pos).
                   pack_try b
                     (MPI_Pack (word_bytes 8 (th_nreported th)) 1 MPI_LONG_LONG_INT b n pos)
                     (\<lambda>(b, pos).
                   pack_try b
                     (MPI_Pack (word_bytes 8 (th_nincluded th)) 1 MPI_LONG_LONG_INT b n pos)
                     Inr))"
      show ?thesis
      proof (cases ?pk)
        case (Inl eb)
        obtain e' b where eb: "eb = (e', b)" by (cases eb)
        have "keeps_len (length (deref buf1)) ?pk"
          using ok [OF True] l1 by (intro envelope_keeps_len) simp
        from keeps_len_Inl [OF this Inl [unfolded eb]] l1 have lb: "length b = nalloc1" by simp
        have "grows x (map_option (\<lambda>_. b) buf1, nalloc1, w1)"
          using g lb l1 by (cases buf1) (simp_all add: grows_def)
        then show ?thesis using Inr e x True Inl eb by (simp add: p7_tophits_MPISend_def)
      next
        case (Inr r)
        obtain b pos where r: "r = (b, pos)" by (cases r)
        from envelope_pack_ext [OF Inr] ok [OF True] l1 r have lb: "length b = nalloc1" by simp
        obtain rc w' where s: "MPI_Send b n dest tag comm w1 = (rc, w')"
          by (cases "MPI_Send b n dest tag comm w1")
        have w2: "wire_ok (Some b, nalloc1, w')" using lb by simp
        have g2: "grows x (Some b, nalloc1, w')" using g lb by (simp add: grows_def)
        from sent_cap_grows [OF tophits_send_loop_cap [OF w2, of "unsrt th" dest tag comm]] g2
        have "grows x (snd (p7_tophits_MPISend_loop (unsrt th) dest tag comm (Some b, nalloc1, w')))"
          by (rule grows_trans [rotated])
        then show ?thesis
          using \<open>p7_tophits_MPISend_size th = Inr n\<close> e x True Inr r s g2
          by (simp add: p7_tophits_MPISend_def)
      qed
    qed
  qed
qed


section \<open>Invariants of receiving\<close>

lemma MPI_Recv_length:
  assumes "MPI_Recv b count s t c w = Some (rc, b', w')" "count \<le> length b"
  shows "length b' = length b"
  using assms
  by (auto simp: MPI_Recv_def next_fault_def min_def split: list.splits bool.splits option.splits)

lemma dcl_recv_grows:
  assumes "wire_ok x" "p7_dcl_MPIRecv source tag comm x = Some (r, x')"
  shows "grows x x'"
proof -
  obtain buf nalloc w where x: "x = (buf, nalloc, w)" by (cases x)
  from assms(2) x obtain rc mpistatus w0 where p: "MPI_Probe source tag comm w = Some (rc, mpistatus, w0)"
    by (auto simp: p7_dcl_MPIRecv_def split: option.splits)
  obtain st buf1 nalloc1 w1 where
    e: "buf_ensure (MPI_Get_count mpistatus) (buf, nalloc, w0) = (st, buf1, nalloc1, w1)"
    by (cases "buf_ensure (MPI_Get_count mpistatus) (buf, nalloc, w0)") auto
  have w0: "wire_ok (buf, nalloc, w0)" using assms(1) x by simp
  from buf_ensure_grows [OF w0 e]
  have g: "grows (buf, nalloc, w0) (buf1, nalloc1, w1)"
    and ok: "st = eslOK \<Longrightarrow> MPI_Get_count mpistatus \<le> nalloc1"
    by simp_all
  have gx: "grows x (buf1, nalloc1, w1)" using g x by (simp add: grows_def)
  have g0: "grows x (buf, nalloc, w0)" using assms(1) x by (simp add: grows_def)
  show ?thesis
    using assms(2) x p e gx g0 ok MPI_Recv_length
    by (fastforce simp: p7_dcl_MPIRecv_def Let_def grows_def
        split: if_splits option.splits prod.splits sum.splits)
qed

lemma hit_recv_loop_grows:
  "wire_ok x \<Longrightarrow> p7_hit_MPIRecv_loop k source tag comm x = Some (r, x') \<Longrightarrow> grows x x'"
proof (induction k arbitrary: x r x')
  case 0
  then show ?case by (simp add: grows_refl)
next
  case (Suc k)
  from Suc.prems(2) obtain r1 x1 where d: "p7_dcl_MPIRecv source tag comm x = Some (r1, x1)"
    by (auto split: option.splits)
  from dcl_recv_grows [OF Suc.prems(1) d] have g1: "grows x x1" .
  then have w1: "wire_ok x1" by (simp add: grows_def)
  show ?case
  proof (cases r1)
    case (Inl e)
    with Suc.prems(2) d g1 show ?thesis by simp
  next
    case (Inr dd)
    with Suc.prems(2) d obtain r2 where "p7_hit_MPIRecv_loop k source tag comm x1 = Some (r2, x')"
      by (auto split: option.splits sum.splits)
    from Suc.IH [OF w1 this] g1 show ?thesis by (rule grows_trans [rotated])
  qed
qed

lemma hit_recv_grows:
  assumes "wire_ok x" "p7_hit_MPIRecv source tag comm hit x = Some (r, x')"
  shows "grows x x'"
proof -
  obtain buf nalloc w where x: "x = (buf, nalloc, w)" by (cases x)
  from assms(2) x obtain rc mpistatus w0 where p: "MPI_Probe source tag comm w = Some (rc, mpistatus, w0)"
    by (auto simp: p7_hit_MPIRecv_def split: option.splits)
  obtain st buf1 nalloc1 w1 where
    e: "buf_ensure (MPI_Get_count mpistatus) (buf, nalloc, w0) = (st, buf1, nalloc1, w1)"
    by (cases "buf_ensure (MPI_Get_count mpistatus) (buf, nalloc, w0)") auto
  have w0: "wire_ok (buf, nalloc, w0)" using assms(1) x by simp
  from buf_ensure_grows [OF w0 e]
  have g: "grows (buf, nalloc, w0) (buf1, nalloc1, w1)"
    and ok: "st = eslOK \<Longrightarrow> MPI_Get_count mpistatus \<le> nalloc1"
    by simp_all
  have gx: "grows x (buf1, nalloc1, w1)" using g x by (simp add: grows_def)
  have g0: "grows x (buf, nalloc, w0)" using assms(1) x by (simp add: grows_def)
  have l1: "length (deref buf1) = nalloc1" using gx by (simp add: grows_def)
  show ?thesis
  proof (cases "(tag \<noteq> MPI_ANY_TAG \<and> MPI_TAG mpistatus \<noteq> tag)
      \<or> (source \<noteq> MPI_ANY_SOURCE \<and> MPI_SOURCE mpistatus \<noteq> source) \<or> st \<noteq> eslOK")
    case True
    then show ?thesis using assms(2) x p e gx g0
      by (auto simp: p7_hit_MPIRecv_def Let_def split: if_splits)
  next
    case False
    with assms(2) x p e obtain rc2 b w2 where
      rv: "MPI_Recv (deref buf1) (MPI_Get_count mpistatus) (MPI_SOURCE mpistatus)
             (MPI_TAG mpistatus) comm w1 = Some (rc2, b, w2)"
      by (auto simp: p7_hit_MPIRecv_def Let_def split: if_splits option.splits)
    from MPI_Recv_length [OF rv] ok False l1 have lb: "length b = nalloc1" by simp
    have gb: "\<And>w'. grows (buf, nalloc, w) (Some b, nalloc1, w')"
      using gx lb x by (simp add: grows_def)
    have wb: "\<And>w'. wire_ok (Some b, nalloc1, w')" using lb by simp
    show ?thesis
      using assms(2) x p e False rv gb
      by (auto simp: p7_hit_MPIRecv_def Let_def
          split: if_splits option.splits sum.splits prod.splits bool.splits
          dest!: hit_recv_loop_grows [OF wb] intro: grows_trans [OF gb])
  qed
qed

lemma tophits_recv_loop_grows:
  "wire_ok x \<Longrightarrow> p7_tophits_MPIRecv_loop k source tag comm th x = Some (r, x') \<Longrightarrow> grows x x'"
proof (induction k arbitrary: x r x' th)
  case 0
  then show ?case by (simp add: grows_refl)
next
  case (Suc k)
  obtain buf nalloc w where x: "x = (buf, nalloc, w)" by (cases x)
  obtain c w' where c: "p7_tophits_CreateNextHit th w = (c, w')"
    by (cases "p7_tophits_CreateNextHit th w")
  have wx: "wire_ok (buf, nalloc, w')" using Suc.prems(1) x by simp
  have gx: "grows x (buf, nalloc, w')" using Suc.prems(1) x by (simp add: grows_def)
  show ?case
  proof (cases c)
    case (Inl e)
    with Suc.prems(2) x c gx show ?thesis by simp
  next
    case (Inr p)
    obtain th' hit where p: "p = (th', hit)" by (cases p)
    from Suc.prems(2) x c Inr p obtain r1 x1 where
      h: "p7_hit_MPIRecv source tag comm hit (buf, nalloc, w') = Some (r1, x1)"
      by (auto split: option.splits)
    from hit_recv_grows [OF wx h] gx have g1: "grows x x1" by (rule grows_trans [rotated])
    then have w1: "wire_ok x1" by (simp add: grows_def)
    show ?thesis
    proof (cases r1)
      case (Inl e)
      with Suc.prems(2) x c \<open>c = Inr p\<close> p h g1 show ?thesis by simp
    next
      case (Inr hit')
      with Suc.prems(2) x c \<open>c = Inr p\<close> p h
      have "p7_tophits_MPIRecv_loop k source tag comm
                 (th'\<lparr>unsrt := butlast (unsrt th') @ [hit']\<rparr>) x1 = Some (r, x')"
        by simp
      from Suc.IH [OF w1 this] g1 show ?thesis by (rule grows_trans [rotated])
    qed
  qed
qed

lemma tophits_recv_grows:
  assumes "wire_ok x" "p7_tophits_MPIRecv source tag comm x = Some (st', ret, x')"
  shows "grows x x'"
proof -
  obtain buf nalloc w where x: "x = (buf, nalloc, w)" by (cases x)
  from assms(2) x obtain rc mpistatus w0 where p: "MPI_Probe source tag comm w = Some (rc, mpistatus, w0)"
    by (auto simp: p7_tophits_MPIRecv_def split: option.splits)
  obtain st buf1 nalloc1 w1 where
    e: "buf_ensure (MPI_Get_count mpistatus) (buf, nalloc, w0) = (st, buf1, nalloc1, w1)"
    by (cases "buf_ensure (MPI_Get_count mpistatus) (buf, nalloc, w0)") auto
  have w0: "wire_ok (buf, nalloc, w0)" using assms(1) x by simp
  from buf_ensure_grows [OF w0 e]
  have g: "grows (buf, nalloc, w0) (buf1, nalloc1, w1)"
    and ok: "st = eslOK \<Longrightarrow> MPI_Get_count mpistatus \<le> nalloc1"
    by simp_all
  have gx: "grows x (buf1, nalloc1, w1)" using g x by (simp add: grows_def)
  have g0: "grows x (buf, nalloc, w0)" using assms(1) x by (simp add: grows_def)
  have l1: "length (deref buf1) = nalloc1" using gx by (simp add: grows_def)
  show ?thesis
  proof (cases "(tag \<noteq> MPI_ANY_TAG \<and> MPI_TAG mpistatus \<noteq> tag)
      \<or> (source \<noteq> MPI_ANY_SOURCE \<and> MPI_SOURCE mpistatus \<noteq> source) \<or> st \<noteq> eslOK")
    case True
    then show ?thesis using assms(2) x p e gx g0
      by (auto simp: p7_tophits_MPIRecv_def Let_def split: if_splits)
  next
    case False
    with assms(2) x p e obtain rc2 b w2 where
      rv: "MPI_Recv (deref buf1) (MPI_Get_count mpistatus) (MPI_SOURCE mpistatus)
             (MPI_TAG mpistatus) comm w1 = Some (rc2, b, w2)"
      by (auto simp: p7_tophits_MPIRecv_def Let_def split: if_splits option.splits)
    from MPI_Recv_length [OF rv] ok False l1 have lb: "length b = nalloc1" by simp
    have gb: "\<And>w'. grows (buf, nalloc, w) (Some b, nalloc1, w')"
      using gx lb x by (simp add: grows_def)
    have wb: "\<And>w'. wire_ok (Some b, nalloc1, w')" using lb by simp
    show ?thesis
      using assms(2) x p e False rv gb
      by (auto simp: p7_tophits_MPIRecv_def Let_def
          split: if_splits option.splits sum.splits prod.splits
          dest!: tophits_recv_loop_grows [OF wb] intro: grows_trans [OF gb])
  qed
qed

section \<open>A collection without hits\<close>

lemma next_fault_none [simp]: "faults w = [] \<Longrightarrow> next_fault w = (False, w)"
  by (simp add: next_fault_def)

lemma buf_ensure_ok:
  assumes "faults w = []"
  shows "\<exists>b. buf_ensure n (buf, nalloc, w) = (eslOK, Some b, if buf = None \<or> nalloc < n then n else nalloc, w)
     \<and> (if buf = None \<or> nalloc < n then length b = n else buf = Some b)"
  using assms by (cases buf) (auto simp: buf_ensure_def ESL_RALLOC_def)

lemma tophits_send_size_empty: "unsrt th = [] \<Longrightarrow> p7_tophits_MPISend_size th = Inr 24"
  by (simp add: p7_tophits_MPISend_size_def MPI_Pack_size_def)

lemma tophits_send_empty:
  assumes "unsrt th = []" "faults w = []"
  shows "\<exists>b. p7_tophits_MPISend th dest tag comm (buf, nalloc, w)
     = (eslOK, Some b, if buf = None \<or> nalloc < 24 then 24 else nalloc,
        w\<lparr>queue := queue w @ [\<lparr>msg_source = comm, msg_dest = dest, msg_tag = tag,
              msg_data = envelope_wire th\<rparr>]\<rparr>)"
proof -
  from buf_ensure_ok [OF assms(2), of 24 buf nalloc] obtain b1 where
    e: "buf_ensure 24 (buf, nalloc, w) = (eslOK, Some b1, if buf = None \<or> nalloc < 24 then 24 else nalloc, w)"
    by blast
  have l: "length (envelope_wire th) = 24" by (simp add: envelope_wire_def)
  have pk: "pack_try b1 (MPI_Pack (word_bytes 8 (th_N th)) 1 MPI_LONG_LONG_INT b1 24 0)
                     (\<lambda>(b, pos).
                   pack_try b (MPI_Pack (word_bytes 8 (th_nreported th)) 1 MPI_LONG_LONG_INT b 24 pos)
                     (\<lambda>(b, pos).
                   pack_try b (MPI_Pack (word_bytes 8 (th_nincluded th)) 1 MPI_LONG_LONG_INT b 24 pos)
                     Inr)) = Inr (envelope_wire th @ drop 24 b1, 24)"
    by (simp add: MPI_Pack_put put_put) (simp add: put_def envelope_wire_def)
  show ?thesis
    using assms e pk l
    by (simp add: p7_tophits_MPISend_def tophits_send_size_empty MPI_Send_def)
qed

lemma tophits_recv_envelope:
  assumes "queue wr = \<lparr>msg_source = src, msg_dest = comm, msg_tag = mtag, msg_data = envelope_wire th\<rparr> # rest"
    "faults wr = []" "source = MPI_ANY_SOURCE \<or> source = src" "tag = MPI_ANY_TAG \<or> tag = mtag"
    "unsrt th = []"
  shows "\<exists>b. p7_tophits_MPIRecv source tag comm (buf, nalloc, wr)
     = Some (eslOK, Some \<lparr>unsrt = [], th_nreported = th_nreported th, th_nincluded = th_nincluded th\<rparr>,
         Some b, if buf = None \<or> nalloc < 24 then 24 else nalloc, wr\<lparr>queue := rest\<rparr>)"
proof -
  let ?m = "\<lparr>msg_source = src, msg_dest = comm, msg_tag = mtag, msg_data = envelope_wire th\<rparr>"
  have l: "length (envelope_wire th) = 24" by (simp add: envelope_wire_def)
  have m1: "msg_matches source tag comm ?m" using assms(3,4) by (auto simp: msg_matches_def)
  have m2: "msg_matches src mtag comm ?m" by (simp add: msg_matches_def)
  have p: "MPI_Probe source tag comm wr = Some (0, \<lparr>MPI_SOURCE = src, MPI_TAG = mtag, st_count = 24\<rparr>, wr)"
    using assms(1,2) m1 l by (simp add: MPI_Probe_def)
  from buf_ensure_ok [OF assms(2), of 24 buf nalloc] obtain b1 where
    e: "buf_ensure 24 (buf, nalloc, wr) = (eslOK, Some b1, if buf = None \<or> nalloc < 24 then 24 else nalloc, wr)"
    by blast
  have r: "MPI_Recv b1 24 src mtag comm wr = Some (0, envelope_wire th @ drop 24 b1, wr\<lparr>queue := rest\<rparr>)"
    using assms(1,2) m2 l by (simp add: MPI_Recv_def)
  have c: "p7_tophits_Create (wr\<lparr>queue := rest\<rparr>)
      = (Some \<lparr>unsrt = [], th_nreported = 0, th_nincluded = 0\<rparr>, wr\<lparr>queue := rest\<rparr>)"
    using assms(2) by (simp add: p7_tophits_Create_def)
  have n0: "th_N th = 0" using assms(5) by (simp add: th_N_def)
  show ?thesis
    using assms(3,4) p e r c
    by (auto simp: p7_tophits_MPIRecv_def MPI_Get_count_def MPI_Unpack_def envelope_wire_def n0)
qed


text \<open>
  Claim C7. For a collection without hits and with no failing call,
  \<^verbatim>\<open>p7_tophits_MPISend\<close> returns <eslOK> and adds one message to the queue, to <dest> with
  the tag given: the three counters as 8-byte values, the count 0 first, then
  <nreported>, then <nincluded>; no hit or domain message follows. A receiver that finds
  this message first in its queue, and asked for any source or this one, and for any
  tag or this one, gets <eslOK> from \<^verbatim>\<open>p7_tophits_MPIRecv\<close> and a collection with no hits
  whose two counters are those sent; the envelope is the only message taken from the
  queue.
\<close>

theorem zero_hits_transfer:
  "unsrt th = [] \<and> faults w = [] \<and> faults wr = []
   \<and> (source = MPI_ANY_SOURCE \<or> source = comm) \<and> (rtag = MPI_ANY_TAG \<or> rtag = tag)
   \<and> queue wr = \<lparr>msg_source = comm, msg_dest = dest, msg_tag = tag,
                   msg_data = word_bytes 8 (0 :: c_long) @ word_bytes 8 (th_nreported th)
                              @ word_bytes 8 (th_nincluded th)\<rparr> # rest
   \<longrightarrow> (\<exists>x'. p7_tophits_MPISend th dest tag comm (buf, nalloc, w) = (eslOK, x')
          \<and> queue_of x' = queue w @
               [\<lparr>msg_source = comm, msg_dest = dest, msg_tag = tag,
                 msg_data = word_bytes 8 (0 :: c_long) @ word_bytes 8 (th_nreported th)
                            @ word_bytes 8 (th_nincluded th)\<rparr>])
     \<and> (\<exists>y'. p7_tophits_MPIRecv source rtag dest (rbuf, rnalloc, wr)
               = Some (eslOK, Some \<lparr>unsrt = [], th_nreported = th_nreported th,
                                    th_nincluded = th_nincluded th\<rparr>, y')
          \<and> queue_of y' = rest)"
proof (intro impI, elim conjE)
  assume a: "unsrt th = []" "faults w = []" "faults wr = []"
    "source = MPI_ANY_SOURCE \<or> source = comm" "rtag = MPI_ANY_TAG \<or> rtag = tag"
    "queue wr = \<lparr>msg_source = comm, msg_dest = dest, msg_tag = tag,
                   msg_data = word_bytes 8 (0 :: c_long) @ word_bytes 8 (th_nreported th)
                              @ word_bytes 8 (th_nincluded th)\<rparr> # rest"
  have e: "envelope_wire th = word_bytes 8 (0 :: c_long) @ word_bytes 8 (th_nreported th)
                              @ word_bytes 8 (th_nincluded th)"
    using a(1) by (simp add: envelope_wire_def th_N_def)
  from tophits_send_empty [OF a(1,2), of dest tag comm buf nalloc]
  have s: "\<exists>x'. p7_tophits_MPISend th dest tag comm (buf, nalloc, w) = (eslOK, x')
          \<and> queue_of x' = queue w @
               [\<lparr>msg_source = comm, msg_dest = dest, msg_tag = tag,
                 msg_data = word_bytes 8 (0 :: c_long) @ word_bytes 8 (th_nreported th)
                            @ word_bytes 8 (th_nincluded th)\<rparr>]"
    by (auto simp: e)
  from tophits_recv_envelope [of wr comm dest tag th rest source rtag rbuf rnalloc] a e
  have r: "\<exists>y'. p7_tophits_MPIRecv source rtag dest (rbuf, rnalloc, wr)
               = Some (eslOK, Some \<lparr>unsrt = [], th_nreported = th_nreported th,
                                    th_nincluded = th_nincluded th\<rparr>, y')
          \<and> queue_of y' = rest"
    by auto
  from s r show "(\<exists>x'. p7_tophits_MPISend th dest tag comm (buf, nalloc, w) = (eslOK, x')
          \<and> queue_of x' = queue w @
               [\<lparr>msg_source = comm, msg_dest = dest, msg_tag = tag,
                 msg_data = word_bytes 8 (0 :: c_long) @ word_bytes 8 (th_nreported th)
                            @ word_bytes 8 (th_nincluded th)\<rparr>])
     \<and> (\<exists>y'. p7_tophits_MPIRecv source rtag dest (rbuf, rnalloc, wr)
               = Some (eslOK, Some \<lparr>unsrt = [], th_nreported = th_nreported th,
                                    th_nincluded = th_nincluded th\<rparr>, y')
          \<and> queue_of y' = rest)"
    by (rule conjI)
qed

theorem zero_hits_transfer_witness:
  "unsrt empty_th = [] \<and> faults world0 = []
   \<and> (\<exists>x'. p7_tophits_MPISend empty_th 0 7 1 (None, 0, world0) = (eslOK, x')
         \<and> queue_of x' = [\<lparr>msg_source = 1, msg_dest = 0, msg_tag = 7,
                 msg_data = word_bytes 8 (0 :: c_long) @ word_bytes 8 (5 :: c_long)
                            @ word_bytes 8 (3 :: c_long)\<rparr>]
         \<and> (\<exists>y'. p7_tophits_MPIRecv MPI_ANY_SOURCE MPI_ANY_TAG 0 (None, 0, world0\<lparr>queue := queue_of x'\<rparr>)
               = Some (eslOK, Some \<lparr>unsrt = [], th_nreported = 5, th_nincluded = 3\<rparr>, y')
             \<and> queue_of y' = []))"
proof -
  have 1: "unsrt empty_th = []" "th_nreported empty_th = 5" "th_nincluded empty_th = 3"
    by (simp_all add: empty_th_def)
  have 2: "faults world0 = []" "queue world0 = []" by (simp_all add: world0_def)
  from zero_hits_transfer [of empty_th world0
      "world0\<lparr>queue := [\<lparr>msg_source = 1, msg_dest = 0, msg_tag = 7,
                 msg_data = word_bytes 8 (0 :: c_long) @ word_bytes 8 (5 :: c_long)
                            @ word_bytes 8 (3 :: c_long)\<rparr>]\<rparr>"
      MPI_ANY_SOURCE 1 MPI_ANY_TAG 7 0 "[]" None 0 None 0] 1 2
  show ?thesis by auto
qed

section \<open>The capacity of the wire buffer\<close>

lemma wire_ok_null: "wire_ok (None, 0, w)"
  by simp


text \<open>
  Claim C8. The block that ensures the buffer leaves buffer, capacity and world as they
  are when the buffer is not NULL and the size asked for is at most the capacity. From
  a well-formed state (the buffer has the capacity recorded, 0 for NULL), every
  operation ends in a well-formed state whose capacity is at least the one before:
  the ensuring block itself, the three sends (those of a hit and of a domain leave the
  capacity as it is), and the three receives whenever they return.
\<close>

theorem capacity_monotone:
  "(buf \<noteq> None \<and> n \<le> nalloc \<longrightarrow> buf_ensure n (buf, nalloc, w) = (eslOK, buf, nalloc, w))
   \<and> (wire_ok x \<longrightarrow>
        grows x (snd (buf_ensure n x))
      \<and> grows x (snd (p7_tophits_MPISend th dest tag comm x))
      \<and> grows x (snd (p7_hit_MPISend hit dest tag comm x))
      \<and> nalloc_of (snd (p7_hit_MPISend hit dest tag comm x)) = nalloc_of x
      \<and> grows x (snd (p7_dcl_MPISend d dest tag comm x))
      \<and> nalloc_of (snd (p7_dcl_MPISend d dest tag comm x)) = nalloc_of x
      \<and> (\<forall>st ret x'. p7_tophits_MPIRecv source tag comm x = Some (st, ret, x') \<longrightarrow> grows x x')
      \<and> (\<forall>r x'. p7_hit_MPIRecv source tag comm hit x = Some (r, x') \<longrightarrow> grows x x')
      \<and> (\<forall>r x'. p7_dcl_MPIRecv source tag comm x = Some (r, x') \<longrightarrow> grows x x'))"
proof (intro conjI impI allI)
  assume "buf \<noteq> None \<and> n \<le> nalloc"
  then show "buf_ensure n (buf, nalloc, w) = (eslOK, buf, nalloc, w)"
    by (auto simp: buf_ensure_def)
next
  assume w: "wire_ok x"
  show "grows x (snd (buf_ensure n x))"
    using buf_ensure_grows(1) [OF w, of n "fst (buf_ensure n x)" "snd (buf_ensure n x)"] by simp
  show "grows x (snd (p7_tophits_MPISend th dest tag comm x))"
    by (rule tophits_send_grows [OF w])
  show "grows x (snd (p7_hit_MPISend hit dest tag comm x))"
    by (rule sent_cap_grows [OF hit_send_cap [OF w]])
  show "nalloc_of (snd (p7_hit_MPISend hit dest tag comm x)) = nalloc_of x"
    using hit_send_cap [OF w, of hit dest tag comm] by (simp add: sent_cap_def)
  show "grows x (snd (p7_dcl_MPISend d dest tag comm x))"
    by (rule sent_cap_grows [OF dcl_send_cap [OF w]])
  show "nalloc_of (snd (p7_dcl_MPISend d dest tag comm x)) = nalloc_of x"
    using dcl_send_cap [OF w, of d dest tag comm] by (simp add: sent_cap_def)
  fix st ret x' assume "p7_tophits_MPIRecv source tag comm x = Some (st, ret, x')"
  then show "grows x x'" by (rule tophits_recv_grows [OF w])
next
  fix r x' assume w: "wire_ok x" and "p7_hit_MPIRecv source tag comm hit x = Some (r, x')"
  then show "grows x x'" by (rule hit_recv_grows)
next
  fix r x' assume w: "wire_ok x" and "p7_dcl_MPIRecv source tag comm x = Some (r, x')"
  then show "grows x x'" by (rule dcl_recv_grows)
qed

theorem capacity_monotone_witness:
  "wire_ok (None, 0, world0)
   \<and> buf_ensure 10 (Some (replicate 24 0), 24, world0) = (eslOK, Some (replicate 24 0), 24, world0)
   \<and> nalloc_of (snd (buf_ensure 24 (None, 0, world0))) = 24
   \<and> grows (None, 0, world0) (snd (p7_tophits_MPISend empty_th 0 7 1 (None, 0, world0)))
   \<and> (\<exists>st ret x'. p7_tophits_MPIRecv MPI_ANY_SOURCE MPI_ANY_TAG 0
          (None, 0, world0\<lparr>queue := [\<lparr>msg_source = 1, msg_dest = 0, msg_tag = 7,
                                       msg_data = envelope_wire empty_th\<rparr>]\<rparr>)
        = Some (st, ret, x') \<and> grows (None, 0, world0) x')"
proof -
  have w: "wire_ok (None, 0, world0)" by (rule wire_ok_null)
  have f: "faults world0 = []" by (simp add: world0_def)
  let ?wr = "world0\<lparr>queue := [\<lparr>msg_source = 1, msg_dest = 0, msg_tag = 7,
                                       msg_data = envelope_wire empty_th\<rparr>]\<rparr>"
  from tophits_recv_envelope [of ?wr 1 0 7 empty_th "[]" MPI_ANY_SOURCE MPI_ANY_TAG None 0]
  obtain st ret x' where r: "p7_tophits_MPIRecv MPI_ANY_SOURCE MPI_ANY_TAG 0 (None, 0, ?wr)
        = Some (st, ret, x')"
    by (auto simp: world0_def empty_th_def)
  have w2: "wire_ok (None, 0, ?wr)" by (rule wire_ok_null)
  note c = capacity_monotone [of "Some (replicate 24 0)" 10 24 world0 "(None, 0, world0)"
      "empty_th" 0 7 1 fresh_hit empty_dcl MPI_ANY_SOURCE]
  note c2 = capacity_monotone [of "Some (replicate 24 0)" 10 24 world0 "(None, 0, ?wr)"
      "empty_th" 0 MPI_ANY_TAG 0 fresh_hit empty_dcl MPI_ANY_SOURCE]
  have 1: "buf_ensure 10 (Some (replicate 24 0), 24, world0) = (eslOK, Some (replicate 24 0), 24, world0)"
    using c by simp
  have 2: "grows (None, 0, world0) (snd (p7_tophits_MPISend empty_th 0 7 1 (None, 0, world0)))"
    using c w by blast
  have 3: "grows (None, 0, ?wr) x'" using c2 w2 r by blast
  then have 4: "grows (None, 0, world0) x'" by (simp add: grows_def)
  have 5: "nalloc_of (snd (buf_ensure 24 (None, 0, world0))) = 24"
    using f by (simp add: buf_ensure_def ESL_RALLOC_def)
  from w 1 2 r 4 5 show ?thesis by blast
qed


section \<open>The length of hit and domain messages\<close>

lemma dcl_send_ok:
  assumes "p7_dcl_MPIPack d (deref buf) nalloc 0 = Inr (b, pos)" "faults w = []"
  shows "p7_dcl_MPISend d dest tag comm (buf, nalloc, w)
     = (eslOK, Some b, nalloc, w\<lparr>queue := queue w @ [\<lparr>msg_source = comm, msg_dest = dest,
          msg_tag = tag, msg_data = take nalloc b\<rparr>]\<rparr>)"
  using assms by (simp add: p7_dcl_MPISend_def MPI_Send_def)

text \<open>
  A send whose packing fails leaves in the buffer what was packed before the failing
  call: for the domain with the empty display and a buffer of 144 bytes, all fields
  before <memsize>.
\<close>

lemma dcl_send_pack_fails:
  "p7_dcl_MPISend empty_dcl 0 7 1 (Some (replicate 144 0), 144, world0)
   = (eslESYS, Some (take 144 (dcl_wire empty_dcl)), 144, world0)"
proof -
  have "p7_dcl_MPIPack empty_dcl (replicate 144 0) 144 0
      = Inl (eslESYS, take 144 (dcl_wire empty_dcl))"
    by code_simp
  then show ?thesis by (simp add: p7_dcl_MPISend_def)
qed

lemma probe_count:
  assumes "faults wr = []" "find (msg_matches s t c) (queue wr) = Some m"
  shows "\<exists>st. MPI_Probe s t c wr = Some (0, st, wr) \<and> MPI_Get_count st = length (msg_data m)"
  using assms by (simp add: MPI_Probe_def MPI_Get_count_def)


text \<open>
  Claim C10. From a well-formed state, every message that \<^verbatim>\<open>p7_hit_MPISend\<close> and
  \<^verbatim>\<open>p7_dcl_MPISend\<close> add to the queue has the capacity \<^verbatim>\<open>*nalloc\<close> as its length. When the
  record packs to <pos> bytes and the send returns <eslOK>, the message added (for a
  hit: the first one, the domain messages follow) is the whole buffer: its length is
  the capacity, which is at least <pos> and more than <pos> when <pos> is less than the
  capacity, and its bytes from <pos> on are the bytes the buffer held before packing.
  A probe that finds a message reports the length of that message.
\<close>

theorem message_length_is_capacity:
  "wire_ok x \<longrightarrow>
     (\<exists>ms. queue_of (snd (p7_hit_MPISend hit dest tag comm x)) = queue_of x @ ms
          \<and> list_all (\<lambda>m. length (msg_data m) = nalloc_of x) ms)
   \<and> (\<exists>ms. queue_of (snd (p7_dcl_MPISend d dest tag comm x)) = queue_of x @ ms
          \<and> list_all (\<lambda>m. length (msg_data m) = nalloc_of x) ms)
   \<and> (\<forall>b pos x'. p7_hit_MPIPack hit (deref (fst x)) (nalloc_of x) 0 = Inr (b, pos)
          \<and> p7_hit_MPISend hit dest tag comm x = (eslOK, x')
        \<longrightarrow> (\<exists>ms. queue_of x' = queue_of x @
                    \<lparr>msg_source = comm, msg_dest = dest, msg_tag = tag, msg_data = b\<rparr> # ms)
            \<and> length b = nalloc_of x \<and> pos \<le> nalloc_of x
            \<and> (pos < nalloc_of x \<longrightarrow> pos < length b)
            \<and> drop pos b = drop pos (deref (fst x)))
   \<and> (\<forall>b pos x'. p7_dcl_MPIPack d (deref (fst x)) (nalloc_of x) 0 = Inr (b, pos)
          \<and> p7_dcl_MPISend d dest tag comm x = (eslOK, x')
        \<longrightarrow> queue_of x' = queue_of x @
                    [\<lparr>msg_source = comm, msg_dest = dest, msg_tag = tag, msg_data = b\<rparr>]
            \<and> length b = nalloc_of x \<and> pos \<le> nalloc_of x
            \<and> (pos < nalloc_of x \<longrightarrow> pos < length b)
            \<and> drop pos b = drop pos (deref (fst x)))
   \<and> (\<forall>m s t c wr. faults wr = [] \<and> find (msg_matches s t c) (queue wr) = Some m
        \<longrightarrow> (\<exists>st. MPI_Probe s t c wr = Some (0, st, wr)
               \<and> MPI_Get_count st = length (msg_data m)))"
  (is "_ \<longrightarrow> ?A \<and> ?B \<and> ?C \<and> ?D \<and> ?E")
proof
  assume w: "wire_ok x"
  obtain buf nalloc w0 where x: "x = (buf, nalloc, w0)" by (cases x)
  from w x have l: "length (deref buf) = nalloc" by simp
  have A: ?A
    using hit_send_cap [OF w, of hit dest tag comm] by (simp add: sent_cap_def)
  have B: ?B
    using dcl_send_cap [OF w, of d dest tag comm] by (simp add: sent_cap_def)
  have C: ?C
  proof (intro allI impI)
    fix b pos x'
    assume a: "p7_hit_MPIPack hit (deref (fst x)) (nalloc_of x) 0 = Inr (b, pos)
          \<and> p7_hit_MPISend hit dest tag comm x = (eslOK, x')"
    from a x have pk: "p7_hit_MPIPack hit (deref buf) nalloc 0 = Inr (b, pos)" by simp
    from hit_pack_ext [OF pk] l have e: "length b = nalloc" "drop pos b = drop pos (deref buf)"
      "pos \<le> nalloc" by (simp_all add: pack_ext_def)
    obtain rc w' where s: "MPI_Send b nalloc dest tag comm w0 = (rc, w')"
      by (cases "MPI_Send b nalloc dest tag comm w0")
    from a x pk s have rc: "rc = 0"
      and lp: "p7_hit_MPISend_loop (take (nat (sint (ndom hit))) (dcl hit)) dest tag comm
                 (Some b, nalloc, w') = (eslOK, x')"
      by (auto simp: p7_hit_MPISend_def split: if_splits)
    from MPI_Send_cases [OF s] rc e have q: "queue w' = queue w0 @
        [\<lparr>msg_source = comm, msg_dest = dest, msg_tag = tag, msg_data = b\<rparr>]" by simp
    have "wire_ok (Some b, nalloc, w')" using e by simp
    from hit_send_loop_cap [OF this, of "take (nat (sint (ndom hit))) (dcl hit)" dest tag comm] lp
    obtain ms where "queue_of x' = queue w' @ ms" by (auto simp: sent_cap_def)
    with q have "\<exists>ms. queue_of x' = queue_of x @
                      \<lparr>msg_source = comm, msg_dest = dest, msg_tag = tag, msg_data = b\<rparr> # ms"
      using x by simp
    with e x show "(\<exists>ms. queue_of x' = queue_of x @
                      \<lparr>msg_source = comm, msg_dest = dest, msg_tag = tag, msg_data = b\<rparr> # ms)
              \<and> length b = nalloc_of x \<and> pos \<le> nalloc_of x
              \<and> (pos < nalloc_of x \<longrightarrow> pos < length b)
              \<and> drop pos b = drop pos (deref (fst x))"
      by simp
  qed
  have D: ?D
  proof (intro allI impI)
    fix b pos x'
    assume a: "p7_dcl_MPIPack d (deref (fst x)) (nalloc_of x) 0 = Inr (b, pos)
          \<and> p7_dcl_MPISend d dest tag comm x = (eslOK, x')"
    from a x have pk: "p7_dcl_MPIPack d (deref buf) nalloc 0 = Inr (b, pos)" by simp
    from dcl_pack_ext [OF pk] l have e: "length b = nalloc" "drop pos b = drop pos (deref buf)"
      "pos \<le> nalloc" by (simp_all add: pack_ext_def)
    obtain rc w' where s: "MPI_Send b nalloc dest tag comm w0 = (rc, w')"
      by (cases "MPI_Send b nalloc dest tag comm w0")
    from a x pk s have rc: "rc = 0" and x': "x' = (Some b, nalloc, w')"
      by (auto simp: p7_dcl_MPISend_def split: if_splits)
    from MPI_Send_cases [OF s] rc e have q: "queue w' = queue w0 @
        [\<lparr>msg_source = comm, msg_dest = dest, msg_tag = tag, msg_data = b\<rparr>]" by simp
    with e x x' show "queue_of x' = queue_of x @
                      [\<lparr>msg_source = comm, msg_dest = dest, msg_tag = tag, msg_data = b\<rparr>]
              \<and> length b = nalloc_of x \<and> pos \<le> nalloc_of x
              \<and> (pos < nalloc_of x \<longrightarrow> pos < length b)
              \<and> drop pos b = drop pos (deref (fst x))"
      by simp
  qed
  have E: ?E using probe_count by blast
  from A B C D E show "?A \<and> ?B \<and> ?C \<and> ?D \<and> ?E" by (intro conjI)
qed

theorem message_length_is_capacity_witness:
  "wire_ok (Some (replicate 200 7), 200, world0)
   \<and> (\<exists>b x'. p7_dcl_MPIPack example_dcl (replicate 200 7) 200 0 = Inr (b, 154)
         \<and> p7_dcl_MPISend example_dcl 0 7 1 (Some (replicate 200 7), 200, world0) = (eslOK, x')
         \<and> queue_of x' = [\<lparr>msg_source = 1, msg_dest = 0, msg_tag = 7, msg_data = b\<rparr>]
         \<and> length b = 200 \<and> 154 < length b \<and> drop 154 b = replicate 46 7
         \<and> (\<exists>st. MPI_Probe 1 7 0 (snd (snd x')) = Some (0, st, snd (snd x'))
                \<and> MPI_Get_count st = 200))"
proof -
  let ?x = "(Some (replicate 200 7), 200 :: nat, world0)"
  have w: "wire_ok ?x" by simp
  have d: "display_ok (ad example_dcl)"
    by (simp add: example_dcl_def empty_dcl_def display_ok_example)
  have f: "faults world0 = []" "queue world0 = []" by (simp_all add: world0_def)
  obtain c where c: "p7_dcl_MPIPack example_dcl (replicate 200 7) 200 0 = Inr (c, 154)"
    using put_fits [of 0 "dcl_wire example_dcl" 200 "replicate 200 7"] d
    by (auto simp: dcl_pack_put display_ok_def length_dcl_wire example_dcl_def empty_dcl_def
        example_display_def empty_display_def)
  let ?x' = "(Some c, 200 :: nat, world0\<lparr>queue := queue world0 @ [\<lparr>msg_source = 1, msg_dest = 0,
          msg_tag = 7, msg_data = take 200 c\<rparr>]\<rparr>)"
  have s: "p7_dcl_MPISend example_dcl 0 7 1 ?x = (eslOK, ?x')"
    using dcl_send_ok [of example_dcl "Some (replicate 200 7)" 200 c 154 world0 0 7 1] c f by simp
  note t = message_length_is_capacity [of ?x fresh_hit 0 7 1 example_dcl, THEN mp, OF w]
  note tD = t [THEN conjunct2, THEN conjunct2, THEN conjunct2, THEN conjunct1, rule_format,
      of c 154 ?x']
  note tE = t [THEN conjunct2, THEN conjunct2, THEN conjunct2, THEN conjunct2, rule_format]
  have pre: "p7_dcl_MPIPack example_dcl (deref (fst ?x)) (nalloc_of ?x) 0 = Inr (c, 154)
          \<and> p7_dcl_MPISend example_dcl 0 7 1 ?x = (eslOK, ?x')"
    using c s by simp
  from tD [OF pre] have r: "queue_of ?x' = [\<lparr>msg_source = 1, msg_dest = 0, msg_tag = 7, msg_data = c\<rparr>]"
     "length c = 200" "drop 154 c = replicate 46 7"
    using f by simp_all
  have m: "faults (snd (snd ?x')) = [] \<and> find (msg_matches 1 7 0) (queue (snd (snd ?x')))
      = Some \<lparr>msg_source = 1, msg_dest = 0, msg_tag = 7, msg_data = c\<rparr>"
    using r f by (simp add: msg_matches_def)
  from tE [OF m] r obtain st where "MPI_Probe 1 7 0 (snd (snd ?x')) = Some (0, st, snd (snd ?x'))"
    "MPI_Get_count st = 200"
    by auto
  moreover have "154 < length c" using r by simp
  ultimately show ?thesis using w c s r by blast
qed

section \<open>Messages of other peers\<close>

lemma world_of_simp [simp]: "world_of (buf, nalloc, w) = w"
  by (simp add: world_of_def)


































lemma view_xfer_simp [simp]:
  "view_xfer s t c (r, buf, nalloc, w) = (r, buf, nalloc, pinned_view s t c w)"
  by (simp add: view_xfer_def)

lemma pinned_view_fields [simp]:
  "faults (pinned_view s t c w) = faults w" "junk (pinned_view s t c w) = junk w"
  "queue (pinned_view s t c w) = filter (msg_matches s t c) (queue w)"
  by (simp_all add: pinned_view_def)

lemma pinned_view_faults [simp]:
  "pinned_view s t c (w\<lparr>faults := fs\<rparr>) = (pinned_view s t c w)\<lparr>faults := fs\<rparr>"
  by (simp add: pinned_view_def)






















text \<open>
  The guard behind the probe: a status that names another tag or source than the one
  asked for ends each receiving function with <eslFAIL>, before anything is received.
  A probe that succeeds does not leave such a status (lemma \<open>probe_reports_match\<close>).
\<close>

lemma mismatch_guard:
  "MPI_Probe source tag comm w = Some (rc, mpistatus, w')
   \<and> ((tag \<noteq> MPI_ANY_TAG \<and> MPI_TAG mpistatus \<noteq> tag)
        \<or> (source \<noteq> MPI_ANY_SOURCE \<and> MPI_SOURCE mpistatus \<noteq> source))
   \<longrightarrow> p7_tophits_MPIRecv source tag comm (buf, nalloc, w) = Some (eslFAIL, None, buf, nalloc, w')
     \<and> p7_hit_MPIRecv source tag comm hit (buf, nalloc, w) = Some (Inl eslFAIL, buf, nalloc, w')
     \<and> p7_dcl_MPIRecv source tag comm (buf, nalloc, w) = Some (Inl eslFAIL, buf, nalloc, w')"
  by (auto simp: p7_tophits_MPIRecv_def p7_hit_MPIRecv_def p7_dcl_MPIRecv_def Let_def)





section \<open>The sizing pass of a send\<close>

lemma envelope_pack:
  assumes "24 \<le> n"
  shows "pack_try b1 (MPI_Pack (word_bytes 8 (th_N th)) 1 MPI_LONG_LONG_INT b1 n 0)
                     (\<lambda>(b, pos).
                   pack_try b (MPI_Pack (word_bytes 8 (th_nreported th)) 1 MPI_LONG_LONG_INT b n pos)
                     (\<lambda>(b, pos).
                   pack_try b (MPI_Pack (word_bytes 8 (th_nincluded th)) 1 MPI_LONG_LONG_INT b n pos)
                     Inr)) = Inr (envelope_wire th @ drop 24 b1, 24)"
  using assms by (simp add: MPI_Pack_put put_put) (simp add: put_def envelope_wire_def)

lemma length_hit_wire_fresh: "length (hit_wire fresh_hit) = 96"
  by (simp add: hit_wire_def fresh_hit_def opt_wire_def)

lemma hit_ok_fresh: "hit_ok fresh_hit"
  by (simp add: hit_ok_def fresh_hit_def str_ok_def)

lemma two_hits_size: "p7_tophits_MPISend_size two_hits_th = Inr 96"
  by (simp add: p7_tophits_MPISend_size_def two_hits_th_def hit_pack_size [OF hit_ok_fresh]
      length_hit_wire_fresh MPI_Pack_size_def)
    (simp add: fresh_hit_def example_hit_def)


text \<open>
  Claim C3. The claim asks that the capacity set up at the start of
  \<^verbatim>\<open>p7_tophits_MPISend\<close> is enough for every hit and every domain of the collection. The
  sizing pass takes the size of the first hit only. For the collection of two hits
  without domains, the first with no string and the second with a name and an empty
  description, it computes 96 bytes, the second hit needs 106, and the send, started
  with no buffer, ends with <eslESYS> at the second hit, after the envelope and the
  first hit have gone out.
\<close>

theorem sizing_pass_misses_later_hit:
  "p7_tophits_MPISend_size two_hits_th = Inr 96
   \<and> p7_hit_MPIPackSize example_hit = Inr 106
   \<and> (\<exists>b. p7_tophits_MPISend two_hits_th 0 7 1 (None, 0, world0)
          = (eslESYS, Some b, 96,
             world0\<lparr>queue := [\<lparr>msg_source = 1, msg_dest = 0, msg_tag = 7,
                                msg_data = envelope_wire two_hits_th @ replicate 72 0\<rparr>,
                               \<lparr>msg_source = 1, msg_dest = 0, msg_tag = 7,
                                msg_data = hit_wire fresh_hit\<rparr>]\<rparr>))"
proof -
  have f: "faults world0 = []" "queue world0 = []" by (simp_all add: world0_def)
  have 1: "p7_tophits_MPISend_size two_hits_th = Inr 96" by (rule two_hits_size)
  have 2: "p7_hit_MPIPackSize example_hit = Inr 106"
    by (simp add: hit_pack_size [OF hit_ok_example] length_hit_wire_example)
  have e: "buf_ensure 96 (None, 0, world0) = (eslOK, Some (replicate 96 0), 96, world0)"
    using f by (simp add: buf_ensure_def ESL_RALLOC_def)
  have le: "length (envelope_wire two_hits_th) = 24" by (simp add: envelope_wire_def)
  let ?b1 = "envelope_wire two_hits_th @ replicate 72 0"
  let ?m1 = "\<lparr>msg_source = 1, msg_dest = 0, msg_tag = 7, msg_data = ?b1\<rparr>"
  let ?w1 = "world0\<lparr>queue := [?m1]\<rparr>"
  have s1: "MPI_Send ?b1 96 0 7 1 world0 = (0, ?w1)"
    using f le by (simp add: MPI_Send_def)
  have pk1: "p7_hit_MPIPack fresh_hit ?b1 96 0 = Inr (hit_wire fresh_hit, 96)"
    using le by (simp add: hit_pack_put [OF hit_ok_fresh] put_def length_hit_wire_fresh)
  let ?m2 = "\<lparr>msg_source = 1, msg_dest = 0, msg_tag = 7, msg_data = hit_wire fresh_hit\<rparr>"
  let ?w2 = "world0\<lparr>queue := [?m1, ?m2]\<rparr>"
  have s2: "MPI_Send (hit_wire fresh_hit) 96 0 7 1 ?w1 = (0, ?w2)"
    using f by (simp add: MPI_Send_def length_hit_wire_fresh)
  have h1: "p7_hit_MPISend fresh_hit 0 7 1 (Some ?b1, 96, ?w1)
      = (eslOK, Some (hit_wire fresh_hit), 96, ?w2)"
    using pk1 s2 by (simp add: p7_hit_MPISend_def) (simp add: fresh_hit_def)
  let ?b2 = "take 94 (hit_wire example_hit) @ drop 94 (hit_wire fresh_hit)"
  have pk2: "p7_hit_MPIPack example_hit (hit_wire fresh_hit) 96 0 = Inl (eslESYS, ?b2)"
    by code_simp
  have h2: "p7_hit_MPISend example_hit 0 7 1 (Some (hit_wire fresh_hit), 96, ?w2)
      = (eslESYS, Some ?b2, 96, ?w2)"
    using pk2 by (simp add: p7_hit_MPISend_def)
  have pe: "pack_try (replicate 96 0) (MPI_Pack (word_bytes 8 (th_N two_hits_th)) 1 MPI_LONG_LONG_INT (replicate 96 0) 96 0)
                     (\<lambda>(b, pos).
                   pack_try b (MPI_Pack (word_bytes 8 (th_nreported two_hits_th)) 1 MPI_LONG_LONG_INT b 96 pos)
                     (\<lambda>(b, pos).
                   pack_try b (MPI_Pack (word_bytes 8 (th_nincluded two_hits_th)) 1 MPI_LONG_LONG_INT b 96 pos)
                     Inr)) = Inr (?b1, 24)"
    using envelope_pack [of 96 "replicate 96 0" two_hits_th] by simp
  have u: "unsrt two_hits_th = [fresh_hit, example_hit]" by (simp add: two_hits_th_def)
  have 3: "p7_tophits_MPISend two_hits_th 0 7 1 (None, 0, world0)
          = (eslESYS, Some ?b2, 96, ?w2)"
    unfolding p7_tophits_MPISend_def
    by (simp add: 1 e pe s1 u h1 h2)
  from 1 2 3 show ?thesis by blast
qed


section \<open>Failures while receiving a collection\<close>

text \<open>A status other than <eslOK> comes with NULL: no collection is handed back.\<close>

lemma tophits_recv_error_null:
  assumes "p7_tophits_MPIRecv source tag comm x = Some (st, ret, x')" "st \<noteq> eslOK"
  shows "ret = None"
  using assms
  by (cases x) (auto simp: p7_tophits_MPIRecv_def Let_def
      split: option.splits prod.splits if_splits sum.splits)

text \<open>
  Claim C6. The claim asks that every failure during \<^verbatim>\<open>p7_tophits_MPIRecv\<close>, a failed
  receive included, gives a status other than <eslOK> and NULL. The return value of
  \<^verbatim>\<open>MPI_Recv\<close> is not looked at: with a buffer of 24 zero bytes left from earlier use, an
  envelope pending that announces one hit, and a receive that fails, the function
  unpacks the old bytes of the buffer and returns <eslOK> with a collection without
  hits.
\<close>

theorem failed_receive_returns_ok:
  "p7_tophits_MPIRecv MPI_ANY_SOURCE MPI_ANY_TAG 0 (Some (replicate 24 0), 24, recv_fault_world)
   = Some (eslOK, Some \<lparr>unsrt = [], th_nreported = 0, th_nincluded = 0\<rparr>,
           Some (replicate 24 0), 24, recv_fault_world\<lparr>faults := []\<rparr>)
   \<and> MPI_Recv (replicate 24 0) 24 1 7 0 (recv_fault_world\<lparr>faults := [True]\<rparr>)
     = Some (1, replicate 24 0, recv_fault_world\<lparr>faults := []\<rparr>)"
proof -
  let ?m = "\<lparr>msg_source = 1, msg_dest = 0, msg_tag = 7,
                msg_data = word_bytes 8 (1 :: c_long) @ word_bytes 8 (1 :: c_long)
                           @ word_bytes 8 (1 :: c_long)\<rparr>"
  have p: "MPI_Probe MPI_ANY_SOURCE MPI_ANY_TAG 0 recv_fault_world
      = Some (0, \<lparr>MPI_SOURCE = 1, MPI_TAG = 7, st_count = 24\<rparr>, recv_fault_world\<lparr>faults := [True]\<rparr>)"
    by (simp add: MPI_Probe_def next_fault_def recv_fault_world_def msg_matches_def)
  have e: "buf_ensure 24 (Some (replicate 24 0), 24, recv_fault_world\<lparr>faults := [True]\<rparr>)
      = (eslOK, Some (replicate 24 0), 24, recv_fault_world\<lparr>faults := [True]\<rparr>)"
    by (simp add: buf_ensure_def)
  have r: "MPI_Recv (replicate 24 0) 24 1 7 0 (recv_fault_world\<lparr>faults := [True]\<rparr>)
     = Some (1, replicate 24 0, recv_fault_world\<lparr>faults := []\<rparr>)"
    by (simp add: MPI_Recv_def next_fault_def)
  have c: "p7_tophits_Create (recv_fault_world\<lparr>faults := []\<rparr>)
      = (Some \<lparr>unsrt = [], th_nreported = 0, th_nincluded = 0\<rparr>, recv_fault_world\<lparr>faults := []\<rparr>)"
    by (simp add: p7_tophits_Create_def next_fault_def)
  have z: "take 8 (replicate 24 (0 :: byte)) = replicate 8 0"
    "take 8 (drop 8 (replicate 24 (0 :: byte))) = replicate 8 0"
    "take 8 (drop 16 (replicate 24 (0 :: byte))) = replicate 8 0"
    by simp_all
  have bz: "(bytes_word (replicate 8 (0 :: byte)) :: c_long) = 0"
    by (simp add: numeral_eq_Suc)
  have "p7_tophits_MPIRecv MPI_ANY_SOURCE MPI_ANY_TAG 0 (Some (replicate 24 0), 24, recv_fault_world)
   = Some (eslOK, Some \<lparr>unsrt = [], th_nreported = 0, th_nincluded = 0\<rparr>,
           Some (replicate 24 0), 24, recv_fault_world\<lparr>faults := []\<rparr>)"
    unfolding p7_tophits_MPIRecv_def
    by (simp add: p e r c MPI_Get_count_def MPI_Unpack_def z bz)
  with r show ?thesis by simp
qed

end
